theory Spec2Isabelle
  imports Main "HOL-Library.Sublist"
begin

section \<open>The build-and-launch orchestrator of \<^verbatim>\<open>pkg/cli/virtualizers.go\<close>\<close>

text \<open>
  The file holds five entry points (\<^verbatim>\<open>runVMware\<close>, \<^verbatim>\<open>runFirecracker\<close>,
  \<^verbatim>\<open>runHyperV\<close>, \<^verbatim>\<open>runVirtualBox\<close>, \<^verbatim>\<open>runQEMU\<close>), the helper
  \<^verbatim>\<open>saveDisk\<close> and the firecracker disk build \<^verbatim>\<open>buildFirecracker\<close>. All of them work
  by side effect: on the file system, on the open handle of the temporary disk, on the
  package-level address queue \<^verbatim>\<open>ips\<close>, and on the configuration object the caller
  passed by pointer. The embedding threads one explicit state through every call and
  records each call of a collaborator in a trace.
\<close>

subsection \<open>Data\<close>

type_synonym path = string
type_synonym bytes = string

text \<open>A Go \<^verbatim>\<open>error\<close> value; \<^verbatim>\<open>nil\<close> is \<open>None\<close> of \<open>error option\<close>.\<close>

datatype error = Error string

datatype backend = VMware | Firecracker | HyperV | VirtualBox | QEMU

text \<open>The fields of \<^verbatim>\<open>vcfg.VCFG\<close> this file reads or writes.\<close>

record network =
  IP :: string
  Gateway :: string
  Mask :: string

record vcfg =
  Networks :: "network list"
  Kernel :: string

text \<open>The \<^verbatim>\<open>Config\<close> literal of each virtualizer package, as the file builds it.\<close>

datatype config =
    VMwareConfig (Headless: bool) (NetworkType: string)
  | FirecrackerConfig
  | HyperVConfig (Headless: bool) (SwitchName: string)
  | VirtualBoxConfig (Headless: bool) (NetworkType: string)
  | QEMUConfig (Headless: bool)

text \<open>
  The \<^verbatim>\<open>*goque.Queue\<close> behind \<^verbatim>\<open>ips\<close>: whether the handle is open, and the
  addresses still stored, oldest first.
\<close>

record queue =
  isOpen :: bool
  items :: "string list"

text \<open>The fields of \<^verbatim>\<open>vdisk.BuildArgs\<close> the file sets.\<close>

record BuildArgs =
  WithVCFGDefaults :: bool
  Format :: backend
  Shell :: bool
  Record :: bool

text \<open>
  One entry of the trace per call that leaves the file (the \<^verbatim>\<open>os\<close> package, the
  collaborators) with its arguments and what it returned, and one for the write of the
  kernel version into the caller's configuration.
\<close>

datatype event =
    EvFetchBridgeDevice "error option"
  | EvSetupBridge string "error option"
  | EvMkdirAll path "error option"
  | EvCreate path "error option"
  | EvWithDefaults "error option"
  | EvNewIPStack "error option"
  | EvDequeue "error + string"
  | EvIpsClose
  | EvCreateBuilder bool "error option"
  | EvBuilderClose
  | EvSetDefaultMTU backend
  | EvNegotiateSize "error option"
  | EvFormatBuild path backend "error option"
  | EvKernelUsed string
  | EvAssignKernel string
  | EvVdiskBuild path BuildArgs "error option"
  | EvClose path "error option"
  | EvReaderClose "error option"
  | EvAlloc backend
  | EvInitialize bytes "error option"
  | EvRun path vcfg string "error option"
  | EvRename path path "error option"
  | EvRemove path "error option"
  | EvRemoveAll path
  | EvLog string

text \<open>
  The state: the directories and regular files that exist, the paths whose
  \<^verbatim>\<open>*os.File\<close> handle is open, the package variable \<^verbatim>\<open>ips\<close> (\<open>None\<close> is
  \<^verbatim>\<open>nil\<close>), the object behind the caller's \<^verbatim>\<open>cfg\<close> pointer, and the trace.
\<close>

record state =
  dirs :: "path set"
  files :: "path set"
  handles :: "path set"
  ips :: "queue option"
  cfg :: vcfg
  trace :: "event list"

text \<open>
  Everything the file takes from outside its own text: the host, the command-line flags,
  the random names, constants of other packages, and what each collaborator answers when
  it is called. A collaborator is modelled by its answer only; it is taken to leave the
  scratch directory, the allocator and the configuration alone, except
  \<^verbatim>\<open>vcfg.WithDefaults\<close>, which rewrites the configuration.
\<close>

record env =
  GOOS :: string
  IsAvailable :: "backend \<Rightarrow> bool"
  VirtualizerID :: "backend \<Rightarrow> string"
  TempDir :: path
  randHex :: string
  tempSuffix :: string
  flagGUI :: bool
  flagShell :: bool
  flagRecord :: string
  Marshal :: "config \<Rightarrow> bytes"
  FetchBridgeDevice_err :: "error option"
  SetupBridge_err :: "error option"
  MkdirAll_err :: "error option"
  Create_err :: "error option"
  WithDefaults_res :: "vcfg \<Rightarrow> error option \<times> vcfg"
  NewIPStack_res :: "error + string list"
  CreateBuilder_err :: "error option"
  NegotiateSize_err :: "error option"
  FormatBuild_err :: "error option"
  KernelUsed :: string
  Build_err :: "error option"
  Close_err :: "error option"
  ReaderClose_err :: "error option"
  Initialize_err :: "error option"
  run_err :: "error option"
  Rename_err :: "error option"

subsection \<open>Sequencing\<close>

definition emit :: "event \<Rightarrow> state \<Rightarrow> state" where
  "emit ev s = s\<lparr>trace := trace s @ [ev]\<rparr>"

text \<open>\<^verbatim>\<open>err = m(); if err != nil { return err }\<close> followed by \<open>k\<close>.\<close>

definition andThen ::
  "(state \<Rightarrow> error option \<times> state) \<Rightarrow> (state \<Rightarrow> error option \<times> state)
     \<Rightarrow> state \<Rightarrow> error option \<times> state" where
  "andThen m k s = (case m s of (Some err, s1) \<Rightarrow> (Some err, s1) | (None, s1) \<Rightarrow> k s1)"

text \<open>
  \<^verbatim>\<open>defer d\<close> followed by \<open>body\<close>: whatever \<open>body\<close> returns, \<open>d\<close> runs on the state it
  leaves, and the returned error is the one of \<open>body\<close> (none of the functions has a named
  result, so a deferred call cannot change it).
\<close>

definition withDefer ::
  "(state \<Rightarrow> state) \<Rightarrow> (state \<Rightarrow> 'r \<times> state) \<Rightarrow> state \<Rightarrow> 'r \<times> state" where
  "withDefer d body s = (case body s of (r, s1) \<Rightarrow> (r, d s1))"

subsection \<open>Paths and the \<^verbatim>\<open>os\<close> package\<close>

definition Join :: "path \<Rightarrow> string \<Rightarrow> path" where
  "Join d n = d @ ''/'' @ n"

definition inside :: "path \<Rightarrow> path \<Rightarrow> bool" where
  "inside d p = prefix (d @ ''/'') p"

definition ErrNotExist :: error where
  "ErrNotExist = Error ''no such file or directory''"

definition ErrIsDir :: error where
  "ErrIsDir = Error ''is a directory''"

definition ErrNotDir :: error where
  "ErrNotDir = Error ''not a directory''"

definition ErrExist :: error where
  "ErrExist = Error ''file exists''"

definition ErrNotEmpty :: error where
  "ErrNotEmpty = Error ''directory not empty''"

definition ErrClosed :: error where
  "ErrClosed = Error ''file already closed''"

text \<open>
  \<^verbatim>\<open>os.MkdirAll\<close>: succeeds without change on a directory that exists, fails on a regular
  file in the way or when the host refuses. The ancestors of the path (here
  \<^verbatim>\<open>os.TempDir()\<close>) are not tracked.
\<close>

definition os_MkdirAll :: "env \<Rightarrow> path \<Rightarrow> state \<Rightarrow> error option \<times> state" where
  "os_MkdirAll e p s =
     (let err = (if p \<in> files s then Some ErrNotDir else MkdirAll_err e) in
      (err, emit (EvMkdirAll p err) (if err = None then s\<lparr>dirs := insert p (dirs s)\<rparr> else s)))"

text \<open>\<^verbatim>\<open>os.Create\<close>: creates or truncates the file and returns its open handle.\<close>

definition os_Create :: "env \<Rightarrow> path \<Rightarrow> state \<Rightarrow> (error + path) \<times> state" where
  "os_Create e p s =
     (let err = (if p \<in> dirs s then Some ErrIsDir else Create_err e) in
      (case err of
         Some x \<Rightarrow> (Inl x, emit (EvCreate p err) s)
       | None \<Rightarrow> (Inr p, emit (EvCreate p err)
                      (s\<lparr>files := insert p (files s), handles := insert p (handles s)\<rparr>))))"

text \<open>
  \<^verbatim>\<open>ioutil.TempFile(dir, pattern)\<close>: a new file \<^verbatim>\<open>dir/pattern<random>\<close>, opened
  exclusively; \<open>tempSuffix\<close> is the random part. A name that is taken is an error here
  (the library retries with other suffixes before it gives up).
\<close>

definition ioutil_TempFile :: "env \<Rightarrow> path \<Rightarrow> string \<Rightarrow> state \<Rightarrow> (error + path) \<times> state" where
  "ioutil_TempFile e d pat s =
     (let p = Join d (pat @ tempSuffix e);
          err = (if p \<in> dirs s \<or> p \<in> files s then Some ErrExist else Create_err e) in
      (case err of
         Some x \<Rightarrow> (Inl x, emit (EvCreate p err) s)
       | None \<Rightarrow> (Inr p, emit (EvCreate p err)
                      (s\<lparr>files := insert p (files s), handles := insert p (handles s)\<rparr>))))"

text \<open>
  \<^verbatim>\<open>f.Close()\<close>: the first call releases the handle and reports what the host
  reports; every later call finds the handle released and returns \<^verbatim>\<open>os.ErrClosed\<close>.
\<close>

definition File_Close :: "env \<Rightarrow> path \<Rightarrow> state \<Rightarrow> error option \<times> state" where
  "File_Close e f s =
     (if f \<in> handles s
      then (Close_err e, emit (EvClose f (Close_err e)) (s\<lparr>handles := handles s - {f}\<rparr>))
      else (Some ErrClosed, emit (EvClose f (Some ErrClosed)) s))"

text \<open>\<^verbatim>\<open>os.Rename\<close> of a regular file.\<close>

definition os_Rename :: "env \<Rightarrow> path \<Rightarrow> path \<Rightarrow> state \<Rightarrow> error option \<times> state" where
  "os_Rename e src dst s =
     (let err = (if src \<notin> files s then Some ErrNotExist
                 else if dst \<in> dirs s then Some ErrIsDir
                 else Rename_err e) in
      (err, emit (EvRename src dst err)
              (if err = None then s\<lparr>files := insert dst (files s - {src})\<rparr> else s)))"

text \<open>\<^verbatim>\<open>os.Remove\<close>: a regular file, or a directory with nothing in it.\<close>

definition os_Remove :: "path \<Rightarrow> state \<Rightarrow> error option \<times> state" where
  "os_Remove p s =
     (if p \<in> files s
      then (None, emit (EvRemove p None) (s\<lparr>files := files s - {p}\<rparr>))
      else if p \<in> dirs s
      then (if (\<exists>q \<in> files s \<union> dirs s. inside p q)
            then (Some ErrNotEmpty, emit (EvRemove p (Some ErrNotEmpty)) s)
            else (None, emit (EvRemove p None) (s\<lparr>dirs := dirs s - {p}\<rparr>)))
      else (Some ErrNotExist, emit (EvRemove p (Some ErrNotExist)) s))"

text \<open>\<^verbatim>\<open>os.RemoveAll\<close>: the path and everything below it; a missing path is no error.\<close>

definition os_RemoveAll :: "path \<Rightarrow> state \<Rightarrow> state" where
  "os_RemoveAll p s =
     emit (EvRemoveAll p)
       (s\<lparr>files := Set.filter (\<lambda>q. q \<noteq> p \<and> \<not> inside p q) (files s),
          dirs := Set.filter (\<lambda>q. q \<noteq> p \<and> \<not> inside p q) (dirs s)\<rparr>)"

subsection \<open>\<^verbatim>\<open>saveDisk\<close> (lines 35 to 48)\<close>

definition saveDisk :: "env \<Rightarrow> path \<Rightarrow> path \<Rightarrow> state \<Rightarrow> error option \<times> state" where
  "saveDisk e sourceDisk destDisk s =
     (case os_Rename e sourceDisk destDisk (emit (EvLog (''Copying Disk to '' @ destDisk)) s) of
        (Some err, s1) \<Rightarrow> (Some err, emit (EvLog (''Failed to Copy Disk to '' @ destDisk)) s1)
      | (None, s1) \<Rightarrow> (None, emit (EvLog ''Copied Disk'') s1))"

subsection \<open>The collaborators\<close>

text \<open>
  \<^verbatim>\<open>vdisk.Build\<close>, \<^verbatim>\<open>pkgReader.Close\<close>, \<^verbatim>\<open>alloc.Alloc\<close>, \<^verbatim>\<open>virt.Initialize\<close>,
  \<^verbatim>\<open>vcfg.WithDefaults\<close> and \<^verbatim>\<open>run\<close> are not in this file: each call is recorded with
  its arguments and returns what the environment says.
\<close>

definition vdisk_Build :: "env \<Rightarrow> path \<Rightarrow> BuildArgs \<Rightarrow> state \<Rightarrow> error option \<times> state" where
  "vdisk_Build e f args s = (Build_err e, emit (EvVdiskBuild f args (Build_err e)) s)"

definition Reader_Close :: "env \<Rightarrow> state \<Rightarrow> error option \<times> state" where
  "Reader_Close e s = (ReaderClose_err e, emit (EvReaderClose (ReaderClose_err e)) s)"

definition Alloc :: "backend \<Rightarrow> state \<Rightarrow> state" where
  "Alloc b s = emit (EvAlloc b) s"

definition Initialize :: "env \<Rightarrow> bytes \<Rightarrow> state \<Rightarrow> error option \<times> state" where
  "Initialize e data s = (Initialize_err e, emit (EvInitialize data (Initialize_err e)) s)"

definition WithDefaults :: "env \<Rightarrow> state \<Rightarrow> error option \<times> state" where
  "WithDefaults e s =
     (case WithDefaults_res e (cfg s) of
        (err, c) \<Rightarrow> (err, emit (EvWithDefaults err) (s\<lparr>cfg := c\<rparr>)))"

definition run :: "env \<Rightarrow> path \<Rightarrow> string \<Rightarrow> state \<Rightarrow> error option \<times> state" where
  "run e diskpath name s = (run_err e, emit (EvRun diskpath (cfg s) name (run_err e)) s)"

subsection \<open>The address queue\<close>

text \<open>
  \<^verbatim>\<open>iputil.BridgeIP\<close>; the comment of line 191 gives its value.
\<close>

definition BridgeIP :: string where
  "BridgeIP = ''10.26.10.1''"

definition ErrEmpty :: error where
  "ErrEmpty = Error ''goque: Stack or queue is empty''"

definition ErrDBClosed :: error where
  "ErrDBClosed = Error ''goque: Database is closed''"

definition ErrNilQueue :: error where
  "ErrNilQueue = Error ''nil pointer dereference''"

text \<open>
  \<^verbatim>\<open>ips.Dequeue()\<close>: the oldest address, removed from the queue. A closed queue and an
  empty one answer with an error. The \<^verbatim>\<open>nil\<close> case is not reached: the caller tests
  \<^verbatim>\<open>ips == nil\<close> first.
\<close>

definition ips_Dequeue :: "state \<Rightarrow> (error + string) \<times> state" where
  "ips_Dequeue s =
     (case ips s of
        None \<Rightarrow> (Inl ErrNilQueue, s)
      | Some q \<Rightarrow>
          (if \<not> isOpen q then (Inl ErrDBClosed, emit (EvDequeue (Inl ErrDBClosed)) s)
           else (case items q of
                   [] \<Rightarrow> (Inl ErrEmpty, emit (EvDequeue (Inl ErrEmpty)) s)
                 | ip # rest \<Rightarrow>
                     (Inr ip, emit (EvDequeue (Inr ip)) (s\<lparr>ips := Some (q\<lparr>items := rest\<rparr>)\<rparr>)))))"

text \<open>\<^verbatim>\<open>ips.Close()\<close>: the handle is closed; the stored addresses stay on disk.\<close>

definition ips_Close :: "state \<Rightarrow> state" where
  "ips_Close s = emit EvIpsClose (s\<lparr>ips := map_option (\<lambda>q. q\<lparr>isOpen := False\<rparr>) (ips s)\<rparr>)"

text \<open>
  Lines 54 to 61, the \<^verbatim>\<open>if ips == nil\<close> block. The second component tells whether
  \<^verbatim>\<open>defer ips.Close()\<close> was executed. \<^verbatim>\<open>iputil.NewIPStack\<close> answers with the addresses
  the stack holds when it is opened; when it fails \<^verbatim>\<open>ips\<close> stays \<^verbatim>\<open>nil\<close>.
\<close>

definition openStack :: "env \<Rightarrow> state \<Rightarrow> error option \<times> bool \<times> state" where
  "openStack e s =
     (case ips s of
        Some q \<Rightarrow> (None, False, s)
      | None \<Rightarrow>
          (case NewIPStack_res e of
             Inl err \<Rightarrow> (Some err, False, emit (EvNewIPStack (Some err)) s)
           | Inr xs \<Rightarrow>
               (None, True,
                emit (EvNewIPStack None) (s\<lparr>ips := Some \<lparr>isOpen = True, items = xs\<rparr>\<rparr>))))"

text \<open>Lines 66 to 68: the three writes into \<^verbatim>\<open>cfg.Networks[i]\<close>.\<close>

definition assignNetwork :: "nat \<Rightarrow> string \<Rightarrow> state \<Rightarrow> state" where
  "assignNetwork i ip s =
     s\<lparr>cfg := (cfg s)\<lparr>Networks :=
          (Networks (cfg s))[i := (Networks (cfg s) ! i)
             \<lparr>IP := ip, Gateway := BridgeIP, Mask := ''255.255.255.0''\<rparr>]\<rparr>\<rparr>"

subsection \<open>\<^verbatim>\<open>buildFirecracker\<close> (lines 50 to 96)\<close>

text \<open>
  The loop of lines 53 to 69 over the indices of \<^verbatim>\<open>cfg.Networks\<close>. The flag says
  whether \<^verbatim>\<open>defer ips.Close()\<close> has been executed so far; a \<^verbatim>\<open>defer\<close> inside a loop
  runs when the function returns, not when the iteration ends.
\<close>

fun networksLoop :: "env \<Rightarrow> nat list \<Rightarrow> bool \<Rightarrow> state \<Rightarrow> error option \<times> bool \<times> state" where
  "networksLoop e [] d s = (None, d, s)"
| "networksLoop e (i # rest) d s =
     (case openStack e s of
        (Some err, d1, s1) \<Rightarrow> (Some err, d \<or> d1, s1)
      | (None, d1, s1) \<Rightarrow>
          (case ips_Dequeue s1 of
             (Inl err, s2) \<Rightarrow> (Some err, d \<or> d1, s2)
           | (Inr ip, s2) \<Rightarrow> networksLoop e rest (d \<or> d1) (assignNetwork i ip s2)))"

text \<open>Lines 70 to 95: the image builder, with its deferred \<^verbatim>\<open>Close\<close>.\<close>

definition buildImage :: "env \<Rightarrow> path \<Rightarrow> BuildArgs \<Rightarrow> state \<Rightarrow> (error + string) \<times> state" where
  "buildImage e w args s =
     (case CreateBuilder_err e of
        Some err \<Rightarrow> (Inl err, emit (EvCreateBuilder (Shell args) (Some err)) s)
      | None \<Rightarrow>
          withDefer (emit EvBuilderClose)
            (\<lambda>s0. let s1 = emit (EvSetDefaultMTU (Format args)) s0 in
               (case NegotiateSize_err e of
                  Some err \<Rightarrow> (Inl err, emit (EvNegotiateSize (Some err)) s1)
                | None \<Rightarrow>
                    (let s2 = emit (EvNegotiateSize None) s1 in
                     (case FormatBuild_err e of
                        Some err \<Rightarrow> (Inl err, emit (EvFormatBuild w (Format args) (Some err)) s2)
                      | None \<Rightarrow>
                          (Inr (KernelUsed e),
                           emit (EvKernelUsed (KernelUsed e))
                             (emit (EvFormatBuild w (Format args) None) s2))))))
            (emit (EvCreateBuilder (Shell args) None) s))"

definition buildFirecracker :: "env \<Rightarrow> path \<Rightarrow> BuildArgs \<Rightarrow> state \<Rightarrow> (error + string) \<times> state" where
  "buildFirecracker e w args s =
     (case networksLoop e [0..<length (Networks (cfg s))] False s of
        (r, d, s1) \<Rightarrow>
          (case (case r of Some err \<Rightarrow> (Inl err, s1) | None \<Rightarrow> buildImage e w args s1) of
             (res, s2) \<Rightarrow> (res, if d then ips_Close s2 else s2)))"

subsection \<open>The five entry points\<close>

text \<open>Lines 107 and 108 (and their copies): the scratch directory.\<close>

definition scratchDir :: "env \<Rightarrow> backend \<Rightarrow> path" where
  "scratchDir e b = Join (TempDir e) (VirtualizerID e b @ ''-'' @ randHex e)"

text \<open>
  The deferred closure every entry point registers once the disk file is open (lines 122
  to 131, 214 to 223, 299 to 308, 377 to 386, 454 to 463). Every error inside it is dropped.
\<close>

definition deferredCleanup :: "env \<Rightarrow> path \<Rightarrow> path \<Rightarrow> path \<Rightarrow> state \<Rightarrow> state" where
  "deferredCleanup e f parent diskOutput s =
     (let s1 = snd (File_Close e f s);
          s2 = (if diskOutput \<noteq> [] then snd (saveDisk e f diskOutput s1) else s1);
          s3 = snd (os_Remove f s2)
      in snd (os_Remove parent s3))"

text \<open>The \<^verbatim>\<open>vdisk.BuildArgs\<close> literal every entry point passes to the disk build.\<close>

definition buildArgs :: "env \<Rightarrow> backend \<Rightarrow> BuildArgs" where
  "buildArgs e b =
     \<lparr>WithVCFGDefaults = True, Format = b, Shell = flagShell e, Record = (flagRecord e \<noteq> [])\<rparr>"

text \<open>
  The statements that follow the closure in \<^verbatim>\<open>runVMware\<close> (lines 133 to 175),
  \<^verbatim>\<open>runHyperV\<close> (310 to 352), \<^verbatim>\<open>runVirtualBox\<close> (388 to 430) and \<^verbatim>\<open>runQEMU\<close>
  (465 to 506); the four differ in the backend and its configuration only.
\<close>

definition launch :: "env \<Rightarrow> backend \<Rightarrow> config \<Rightarrow> path \<Rightarrow> string \<Rightarrow> state \<Rightarrow> error option \<times> state" where
  "launch e b config f name =
     andThen (vdisk_Build e f (buildArgs e b))
    (andThen (File_Close e f)
    (andThen (Reader_Close e)
    (andThen (\<lambda>s. Initialize e (Marshal e config) (Alloc b s))
    (andThen (WithDefaults e)
             (run e f name)))))"

definition runVMware :: "env \<Rightarrow> string \<Rightarrow> path \<Rightarrow> state \<Rightarrow> error option \<times> state" where
  "runVMware e name diskOutput s =
     (if \<not> IsAvailable e VMware
      then (Some (Error ''vmware is not installed on your system''), s)
      else
        (let parent = scratchDir e VMware in
         (case os_MkdirAll e parent s of
            (Some err, s1) \<Rightarrow> (Some err, s1)
          | (None, s1) \<Rightarrow>
              (case os_Create e (Join parent ''disk.vmdk'') s1 of
                 (Inl err, s2) \<Rightarrow> (Some err, s2)
               | (Inr f, s2) \<Rightarrow>
                   withDefer (deferredCleanup e f parent diskOutput)
                     (launch e VMware (VMwareConfig (\<not> flagGUI e) ''nat'') f name) s2))))"

text \<open>Lines 189 to 196 of \<^verbatim>\<open>runFirecracker\<close>: the bridge device.\<close>

definition ensureBridge :: "env \<Rightarrow> state \<Rightarrow> error option \<times> state" where
  "ensureBridge e s =
     (case FetchBridgeDevice_err e of
        None \<Rightarrow> (None, emit (EvFetchBridgeDevice None) s)
      | Some err \<Rightarrow>
          (SetupBridge_err e,
           emit (EvSetupBridge BridgeIP (SetupBridge_err e))
             (emit (EvFetchBridgeDevice (Some err)) s)))"

text \<open>Line 245: \<^verbatim>\<open>cfg.VM.Kernel = kernelVer\<close>.\<close>

definition assignKernel :: "string \<Rightarrow> state \<Rightarrow> state" where
  "assignKernel kernelVer s =
     emit (EvAssignKernel kernelVer) (s\<lparr>cfg := (cfg s)\<lparr>Kernel := kernelVer\<rparr>\<rparr>)"

text \<open>Lines 260 to 262: the warning when a display was asked for.\<close>

definition warnGUI :: "env \<Rightarrow> state \<Rightarrow> state" where
  "warnGUI e s =
     (if flagGUI e then emit (EvLog ''firecracker does not support displaying a gui'') s else s)"

text \<open>Lines 225 to 271 of \<^verbatim>\<open>runFirecracker\<close>.\<close>

definition launchFirecracker :: "env \<Rightarrow> path \<Rightarrow> string \<Rightarrow> state \<Rightarrow> error option \<times> state" where
  "launchFirecracker e f name =
     andThen (WithDefaults e)
       (\<lambda>s. case buildFirecracker e f (buildArgs e Firecracker) s of
               (Inl err, s1) \<Rightarrow> (Some err, s1)
             | (Inr kernelVer, s1) \<Rightarrow>
                 (andThen (File_Close e f)
                 (andThen (Reader_Close e)
                 (andThen (\<lambda>s. Initialize e (Marshal e FirecrackerConfig)
                                  (warnGUI e (Alloc Firecracker s)))
                          (run e f name))))
                   (assignKernel kernelVer s1))"

definition runFirecracker :: "env \<Rightarrow> string \<Rightarrow> path \<Rightarrow> state \<Rightarrow> error option \<times> state" where
  "runFirecracker e name diskOutput s =
     (if GOOS e \<noteq> ''linux''
      then (Some (Error ''firecracker is only available on linux''), s)
      else if \<not> IsAvailable e Firecracker
      then (Some (Error ''firecracker is not installed on your system''), s)
      else
        (case ensureBridge e s of
           (Some err, s0) \<Rightarrow> (Some err, s0)
         | (None, s0) \<Rightarrow>
             (let parent = scratchDir e Firecracker in
              withDefer (os_RemoveAll parent)
                (\<lambda>sa. case os_MkdirAll e parent sa of
                    (Some err, s1) \<Rightarrow> (Some err, s1)
                  | (None, s1) \<Rightarrow>
                      (case ioutil_TempFile e parent ''vorteil.disk'' s1 of
                         (Inl err, s2) \<Rightarrow> (Some err, s2)
                       | (Inr f, s2) \<Rightarrow>
                           withDefer (deferredCleanup e f parent diskOutput)
                             (launchFirecracker e f name) s2))
                s0)))"

definition runHyperV :: "env \<Rightarrow> string \<Rightarrow> path \<Rightarrow> state \<Rightarrow> error option \<times> state" where
  "runHyperV e name diskOutput s =
     (if GOOS e \<noteq> ''windows''
      then (Some (Error ''hyper-v is only available on windows system''), s)
      else if \<not> IsAvailable e HyperV
      then (Some (Error ''hyper-v is not enabled on your system''), s)
      else
        (let parent = scratchDir e HyperV in
         (case os_MkdirAll e parent s of
            (Some err, s1) \<Rightarrow> (Some err, s1)
          | (None, s1) \<Rightarrow>
              (case os_Create e (Join parent ''disk.vhd'') s1 of
                 (Inl err, s2) \<Rightarrow> (Some err, s2)
               | (Inr f, s2) \<Rightarrow>
                   withDefer (deferredCleanup e f parent diskOutput)
                     (launch e HyperV (HyperVConfig (\<not> flagGUI e) ''Default Switch'') f name)
                     s2))))"

definition runVirtualBox :: "env \<Rightarrow> string \<Rightarrow> path \<Rightarrow> state \<Rightarrow> error option \<times> state" where
  "runVirtualBox e name diskOutput s =
     (if \<not> IsAvailable e VirtualBox
      then (Some (Error ''virtualbox not found installed on system''), s)
      else
        (let parent = scratchDir e VirtualBox in
         withDefer (os_RemoveAll parent)
           (\<lambda>sa. case os_MkdirAll e parent sa of
               (Some err, s1) \<Rightarrow> (Some err, s1)
             | (None, s1) \<Rightarrow>
                 (case ioutil_TempFile e parent ''vorteil.disk'' s1 of
                    (Inl err, s2) \<Rightarrow> (Some err, s2)
                  | (Inr f, s2) \<Rightarrow>
                      withDefer (deferredCleanup e f parent diskOutput)
                        (launch e VirtualBox (VirtualBoxConfig (\<not> flagGUI e) ''nat'') f name)
                        s2))
           s))"

definition runQEMU :: "env \<Rightarrow> string \<Rightarrow> path \<Rightarrow> state \<Rightarrow> error option \<times> state" where
  "runQEMU e name diskOutput s =
     (if \<not> IsAvailable e QEMU
      then (Some (Error ''qemu not installed on system''), s)
      else
        (let parent = scratchDir e QEMU in
         withDefer (os_RemoveAll parent)
           (\<lambda>sa. case os_MkdirAll e parent sa of
               (Some err, s1) \<Rightarrow> (Some err, s1)
             | (None, s1) \<Rightarrow>
                 (case ioutil_TempFile e parent ''vorteil.disk'' s1 of
                    (Inl err, s2) \<Rightarrow> (Some err, s2)
                  | (Inr f, s2) \<Rightarrow>
                      withDefer (deferredCleanup e f parent diskOutput)
                        (launch e QEMU (QEMUConfig (\<not> flagGUI e)) f name)
                        s2))
           s))"

text \<open>One orchestration call, by backend.\<close>

fun orchestrate :: "backend \<Rightarrow> env \<Rightarrow> string \<Rightarrow> path \<Rightarrow> state \<Rightarrow> error option \<times> state" where
  "orchestrate VMware = runVMware"
| "orchestrate Firecracker = runFirecracker"
| "orchestrate HyperV = runHyperV"
| "orchestrate VirtualBox = runVirtualBox"
| "orchestrate QEMU = runQEMU"

text \<open>The name of the disk file an entry point opens, \<^verbatim>\<open>f.Name()\<close>.\<close>

fun diskPath :: "env \<Rightarrow> backend \<Rightarrow> path" where
  "diskPath e VMware = Join (scratchDir e VMware) ''disk.vmdk''"
| "diskPath e HyperV = Join (scratchDir e HyperV) ''disk.vhd''"
| "diskPath e b = Join (scratchDir e b) (''vorteil.disk'' @ tempSuffix e)"

subsection \<open>The shape the five entry points share\<close>

text \<open>
  The five functions are copies of one another. The definitions below name the parts in
  which they differ, so that a property can be proved once; \<open>orchestrate_shape\<close> further
  down shows that every entry point is this composition.
\<close>

text \<open>The tests of the first lines: host family, then the availability probe.\<close>

fun rejection :: "env \<Rightarrow> backend \<Rightarrow> error option" where
  "rejection e VMware =
     (if \<not> IsAvailable e VMware then Some (Error ''vmware is not installed on your system'')
      else None)"
| "rejection e Firecracker =
     (if GOOS e \<noteq> ''linux'' then Some (Error ''firecracker is only available on linux'')
      else if \<not> IsAvailable e Firecracker
      then Some (Error ''firecracker is not installed on your system'')
      else None)"
| "rejection e HyperV =
     (if GOOS e \<noteq> ''windows'' then Some (Error ''hyper-v is only available on windows system'')
      else if \<not> IsAvailable e HyperV then Some (Error ''hyper-v is not enabled on your system'')
      else None)"
| "rejection e VirtualBox =
     (if \<not> IsAvailable e VirtualBox then Some (Error ''virtualbox not found installed on system'')
      else None)"
| "rejection e QEMU =
     (if \<not> IsAvailable e QEMU then Some (Error ''qemu not installed on system'') else None)"

text \<open>Whether the entry point executes \<^verbatim>\<open>defer os.RemoveAll(parent)\<close>.\<close>

fun removesAll :: "backend \<Rightarrow> bool" where
  "removesAll VMware = False"
| "removesAll HyperV = False"
| "removesAll b = True"

text \<open>How the disk file is opened: \<^verbatim>\<open>os.Create\<close> or \<^verbatim>\<open>ioutil.TempFile\<close>.\<close>

fun createDisk :: "env \<Rightarrow> backend \<Rightarrow> state \<Rightarrow> (error + path) \<times> state" where
  "createDisk e VMware = os_Create e (Join (scratchDir e VMware) ''disk.vmdk'')"
| "createDisk e HyperV = os_Create e (Join (scratchDir e HyperV) ''disk.vhd'')"
| "createDisk e b = ioutil_TempFile e (scratchDir e b) ''vorteil.disk''"

text \<open>The statements after the deferred closure.\<close>

fun afterCreate :: "env \<Rightarrow> backend \<Rightarrow> path \<Rightarrow> string \<Rightarrow> state \<Rightarrow> error option \<times> state" where
  "afterCreate e VMware f name = launch e VMware (VMwareConfig (\<not> flagGUI e) ''nat'') f name"
| "afterCreate e Firecracker f name = launchFirecracker e f name"
| "afterCreate e HyperV f name =
     launch e HyperV (HyperVConfig (\<not> flagGUI e) ''Default Switch'') f name"
| "afterCreate e VirtualBox f name =
     launch e VirtualBox (VirtualBoxConfig (\<not> flagGUI e) ''nat'') f name"
| "afterCreate e QEMU f name = launch e QEMU (QEMUConfig (\<not> flagGUI e)) f name"

text \<open>From \<^verbatim>\<open>os.MkdirAll\<close> to the return, the deferred closure included.\<close>

definition scoped :: "env \<Rightarrow> backend \<Rightarrow> string \<Rightarrow> path \<Rightarrow> state \<Rightarrow> error option \<times> state" where
  "scoped e b name diskOutput s =
     (case os_MkdirAll e (scratchDir e b) s of
        (Some err, s1) \<Rightarrow> (Some err, s1)
      | (None, s1) \<Rightarrow>
          (case createDisk e b s1 of
             (Inl err, s2) \<Rightarrow> (Some err, s2)
           | (Inr f, s2) \<Rightarrow>
               withDefer (deferredCleanup e f (scratchDir e b) diskOutput)
                 (afterCreate e b f name) s2))"

text \<open>
  Everything an entry point has deferred once the disk file is open, in the order in which
  it runs: the closure, then \<^verbatim>\<open>os.RemoveAll(parent)\<close> where it was deferred.
\<close>

definition finalizer :: "env \<Rightarrow> backend \<Rightarrow> path \<Rightarrow> state \<Rightarrow> state" where
  "finalizer e b diskOutput s =
     (let s1 = deferredCleanup e (diskPath e b) (scratchDir e b) diskOutput s
      in if removesAll b then os_RemoveAll (scratchDir e b) s1 else s1)"

text \<open>The state an entry point is in after the bridge device has been seen to.\<close>

definition entry :: "env \<Rightarrow> backend \<Rightarrow> state \<Rightarrow> state" where
  "entry e b s = (if b = Firecracker then snd (ensureBridge e s) else s)"

text \<open>The state in which the closure is deferred: directory made, disk file open.\<close>

definition acquired :: "env \<Rightarrow> backend \<Rightarrow> state \<Rightarrow> state" where
  "acquired e b s =
     emit (EvCreate (diskPath e b) None)
       ((emit (EvMkdirAll (scratchDir e b) None) (s\<lparr>dirs := insert (scratchDir e b) (dirs s)\<rparr>))
          \<lparr>files := insert (diskPath e b) (files s),
           handles := insert (diskPath e b) (handles s)\<rparr>)"

text \<open>Everything of the state but the trace: what a call can free or leak.\<close>

definition resources ::
  "state \<Rightarrow> path set \<times> path set \<times> path set \<times> queue option \<times> vcfg" where
  "resources s = (dirs s, files s, handles s, ips s, cfg s)"

subsection \<open>Reading the trace\<close>

text \<open>The events a call added to the trace.\<close>

definition newEvents :: "state \<Rightarrow> state \<Rightarrow> event list" where
  "newEvents s s' = drop (length (trace s)) (trace s')"

text \<open>What the bridge device leaves in the trace.\<close>

definition bridgeEvents :: "env \<Rightarrow> backend \<Rightarrow> event list" where
  "bridgeEvents e b =
     (if b = Firecracker
      then (case FetchBridgeDevice_err e of
              None \<Rightarrow> [EvFetchBridgeDevice None]
            | Some err \<Rightarrow>
                [EvFetchBridgeDevice (Some err), EvSetupBridge BridgeIP (SetupBridge_err e)])
      else [])"

text \<open>
  What an entry point leaves in the trace when it returns before the disk file is open:
  the bridge device, the directory, the failed attempt to open the file, and the deferred
  \<^verbatim>\<open>os.RemoveAll\<close>.
\<close>

fun early :: "event \<Rightarrow> bool" where
  "early (EvFetchBridgeDevice r) = True"
| "early (EvSetupBridge a r) = True"
| "early (EvMkdirAll p r) = True"
| "early (EvCreate p r) = (r \<noteq> None)"
| "early (EvRemoveAll p) = True"
| "early ev = False"

text \<open>
  The calls inside \<^verbatim>\<open>buildFirecracker\<close> other than the encoder and the kernel version:
  the address queue and the set-up of the image builder.
\<close>

fun quiet :: "event \<Rightarrow> bool" where
  "quiet (EvNewIPStack r) = True"
| "quiet (EvDequeue r) = True"
| "quiet EvIpsClose = True"
| "quiet (EvCreateBuilder sh r) = True"
| "quiet EvBuilderClose = True"
| "quiet (EvSetDefaultMTU b) = True"
| "quiet (EvNegotiateSize r) = True"
| "quiet ev = False"

text \<open>A disk build (\<^verbatim>\<open>vdisk.Build\<close>, or \<^verbatim>\<open>args.Format.Build\<close> for firecracker).\<close>

fun isBuild :: "event \<Rightarrow> bool" where
  "isBuild (EvVdiskBuild f a r) = True"
| "isBuild (EvFormatBuild f b r) = True"
| "isBuild ev = False"

fun buildOk :: "event \<Rightarrow> bool" where
  "buildOk (EvVdiskBuild f a r) = (r = None)"
| "buildOk (EvFormatBuild f b r) = (r = None)"
| "buildOk ev = False"

text \<open>
  The steps of the life cycle: the disk build, the close of the package reader, and the
  three calls on the virtualizer.
\<close>

fun lifecycle :: "event \<Rightarrow> bool" where
  "lifecycle (EvVdiskBuild f a r) = True"
| "lifecycle (EvFormatBuild f b r) = True"
| "lifecycle (EvReaderClose r) = True"
| "lifecycle (EvAlloc b) = True"
| "lifecycle (EvInitialize d r) = True"
| "lifecycle (EvRun f c n r) = True"
| "lifecycle ev = False"

text \<open>The calls of \<^verbatim>\<open>f.Close()\<close>.\<close>

fun isClose :: "event \<Rightarrow> bool" where
  "isClose (EvClose f r) = True"
| "isClose ev = False"

text \<open>What the deferred calls leave in the trace after the relocation.\<close>

fun afterRelocation :: "event \<Rightarrow> bool" where
  "afterRelocation (EvLog m) = True"
| "afterRelocation (EvRemove p r) = True"
| "afterRelocation (EvRemoveAll p) = True"
| "afterRelocation ev = False"

text \<open>The kernel version on its way from the image builder to the virtualizer.\<close>

fun kernelFlow :: "event \<Rightarrow> bool" where
  "kernelFlow (EvFormatBuild f b r) = True"
| "kernelFlow (EvKernelUsed k) = True"
| "kernelFlow (EvAssignKernel k) = True"
| "kernelFlow (EvInitialize d r) = True"
| "kernelFlow (EvRun f c n r) = True"
| "kernelFlow ev = False"

text \<open>The calls on the address queue.\<close>

fun isDequeue :: "event \<Rightarrow> bool" where
  "isDequeue (EvDequeue r) = True"
| "isDequeue ev = False"

text \<open>
  The addresses a build can take from the allocator: those of the open queue, or of the
  stack \<^verbatim>\<open>iputil.NewIPStack\<close> opens when \<^verbatim>\<open>ips\<close> is still \<^verbatim>\<open>nil\<close>.
\<close>

definition available :: "env \<Rightarrow> state \<Rightarrow> string list" where
  "available e s =
     (case ips s of
        None \<Rightarrow> (case NewIPStack_res e of Inl err \<Rightarrow> [] | Inr xs \<Rightarrow> xs)
      | Some q \<Rightarrow> (if isOpen q then items q else []))"

text \<open>What lines 66 to 68 make of an interface.\<close>

definition resolved :: "network \<Rightarrow> string \<Rightarrow> network" where
  "resolved n ip = n\<lparr>IP := ip, Gateway := BridgeIP, Mask := ''255.255.255.0''\<rparr>"


subsection \<open>Concrete inputs\<close>

text \<open>
  A linux host on which every backend is installed and every collaborator succeeds; the
  address stack holds three addresses when it is opened.
\<close>

definition env0 :: env where
  "env0 = \<lparr>GOOS = ''linux'', IsAvailable = (\<lambda>b. True),
           VirtualizerID = (\<lambda>b. case b of VMware \<Rightarrow> ''vmware'' | Firecracker \<Rightarrow> ''firecracker''
                                 | HyperV \<Rightarrow> ''hyperv'' | VirtualBox \<Rightarrow> ''virtualbox''
                                 | QEMU \<Rightarrow> ''qemu''),
           TempDir = ''/tmp'', randHex = ''0a1b2c3d4e'', tempSuffix = ''7'',
           flagGUI = False, flagShell = False, flagRecord = [],
           Marshal = (\<lambda>c. case c of QEMUConfig h \<Rightarrow> (if h then ''H'' else ''G'') | _ \<Rightarrow> ''C''),
           FetchBridgeDevice_err = None, SetupBridge_err = None,
           MkdirAll_err = None, Create_err = None,
           WithDefaults_res = (\<lambda>c. (None, c)),
           NewIPStack_res = Inr [''10.26.10.2'', ''10.26.10.3'', ''10.26.10.4''],
           CreateBuilder_err = None, NegotiateSize_err = None, FormatBuild_err = None,
           KernelUsed = ''21.3.6'', Build_err = None, Close_err = None,
           ReaderClose_err = None, Initialize_err = None, run_err = None,
           Rename_err = None\<rparr>"

text \<open>A host with only the temporary directory, no queue opened yet, no network declared.\<close>

definition state0 :: state where
  "state0 = \<lparr>dirs = {''/tmp''}, files = {}, handles = {}, ips = None,
             cfg = \<lparr>Networks = [], Kernel = []\<rparr>, trace = []\<rparr>"

definition net0 :: network where
  "net0 = \<lparr>IP = [], Gateway = [], Mask = []\<rparr>"

section \<open>Properties\<close>

subsection \<open>Rejection before any resource is taken\<close>

text \<open>
  Claim C2. When the availability probe of the backend answers false, or the backend is
  firecracker and the host is not linux, or the backend is hyper-v and the host is not
  windows, the orchestration call returns an error with one of the six messages of the
  file and leaves the whole state as it found it: no directory was made, no file was
  opened, no address was taken from the queue, and no call left the file.
\<close>

theorem unavailable_backend_rejected_untouched:
  assumes "\<not> IsAvailable e b \<or> (b = Firecracker \<and> GOOS e \<noteq> ''linux'')
             \<or> (b = HyperV \<and> GOOS e \<noteq> ''windows'')"
  shows "\<exists>msg \<in> {''vmware is not installed on your system'',
                  ''firecracker is only available on linux'',
                  ''firecracker is not installed on your system'',
                  ''hyper-v is only available on windows system'',
                  ''hyper-v is not enabled on your system'',
                  ''virtualbox not found installed on system'',
                  ''qemu not installed on system''}.
           orchestrate b e name diskOutput s = (Some (Error msg), s)"
  using assms
  by (cases b) (auto simp: runVMware_def runFirecracker_def runHyperV_def
      runVirtualBox_def runQEMU_def)

theorem unavailable_backend_rejected_untouched_witness:
  "(\<exists>msg. orchestrate Firecracker (env0\<lparr>GOOS := ''darwin''\<rparr>) ''vm'' ''/out/disk.raw'' state0
            = (Some (Error msg), state0))
   \<and> (\<exists>msg. orchestrate QEMU (env0\<lparr>IsAvailable := (\<lambda>b. False)\<rparr>) ''vm'' [] state0
            = (Some (Error msg), state0))"
proof -
  have a: "\<not> IsAvailable (env0\<lparr>GOOS := ''darwin''\<rparr>) Firecracker
             \<or> (Firecracker = Firecracker \<and> GOOS (env0\<lparr>GOOS := ''darwin''\<rparr>) \<noteq> ''linux'')
             \<or> (Firecracker = HyperV \<and> GOOS (env0\<lparr>GOOS := ''darwin''\<rparr>) \<noteq> ''windows'')"
    by (simp add: env0_def)
  have b: "\<not> IsAvailable (env0\<lparr>IsAvailable := (\<lambda>b. False)\<rparr>) QEMU
             \<or> (QEMU = Firecracker \<and> GOOS (env0\<lparr>IsAvailable := (\<lambda>b. False)\<rparr>) \<noteq> ''linux'')
             \<or> (QEMU = HyperV \<and> GOOS (env0\<lparr>IsAvailable := (\<lambda>b. False)\<rparr>) \<noteq> ''windows'')"
    by simp
  from unavailable_backend_rejected_untouched [OF a, of "''vm''" "''/out/disk.raw''" state0]
  have 1: "\<exists>msg. orchestrate Firecracker (env0\<lparr>GOOS := ''darwin''\<rparr>) ''vm'' ''/out/disk.raw''
             state0 = (Some (Error msg), state0)"
    by blast
  from unavailable_backend_rejected_untouched [OF b, of "''vm''" "[]" state0]
  have 2: "\<exists>msg. orchestrate QEMU (env0\<lparr>IsAvailable := (\<lambda>b. False)\<rparr>) ''vm'' [] state0
             = (Some (Error msg), state0)"
    by blast
  from 1 2 show ?thesis by blast
qed

subsection \<open>The shape of an orchestration call\<close>

lemma emit_simps:
  "files (emit ev s) = files s" "dirs (emit ev s) = dirs s" "handles (emit ev s) = handles s"
  "ips (emit ev s) = ips s" "cfg (emit ev s) = cfg s" "trace (emit ev s) = trace s @ [ev]"
  by (simp_all add: emit_def)

lemma orchestrate_shape:
  "orchestrate b e name out s =
     (case rejection e b of
        Some err \<Rightarrow> (Some err, s)
      | None \<Rightarrow>
          (case (if b = Firecracker then ensureBridge e s else (None, s)) of
             (Some err, s0) \<Rightarrow> (Some err, s0)
           | (None, s0) \<Rightarrow>
               (if removesAll b
                then withDefer (os_RemoveAll (scratchDir e b)) (scoped e b name out) s0
                else scoped e b name out s0)))"
  by (cases b)
     (simp_all add: runVMware_def runFirecracker_def runHyperV_def runVirtualBox_def
        runQEMU_def scoped_def withDefer_def Let_def split: prod.splits option.splits sum.splits)

lemma os_MkdirAll_cases:
  assumes "os_MkdirAll e p s = (r, s1)"
  obtains (failed) err where "r = Some err" "s1 = emit (EvMkdirAll p (Some err)) s"
        | (made) "r = None" "p \<notin> files s"
                 "s1 = emit (EvMkdirAll p None) (s\<lparr>dirs := insert p (dirs s)\<rparr>)"
  using assms by (auto simp: os_MkdirAll_def Let_def split: if_splits)

lemma createDisk_cases:
  assumes "createDisk e b s = (res, s1)"
  obtains (failed) err where "res = Inl err" "s1 = emit (EvCreate (diskPath e b) (Some err)) s"
        | (opened) "res = Inr (diskPath e b)" "diskPath e b \<notin> dirs s"
                   "s1 = emit (EvCreate (diskPath e b) None)
                           (s\<lparr>files := insert (diskPath e b) (files s),
                              handles := insert (diskPath e b) (handles s)\<rparr>)"
  using assms
  by (cases b) (auto simp: os_Create_def ioutil_TempFile_def Let_def split: if_splits option.splits)

lemma scoped_cases:
  assumes "scoped e b name out s = (r, s')"
  obtains (sc_mkdir) err where "r = Some err" "s' = emit (EvMkdirAll (scratchDir e b) (Some err)) s"
        | (sc_create) err where "r = Some err" "scratchDir e b \<notin> files s"
            "s' = emit (EvCreate (diskPath e b) (Some err))
                    (emit (EvMkdirAll (scratchDir e b) None)
                       (s\<lparr>dirs := insert (scratchDir e b) (dirs s)\<rparr>))"
        | (sc_body) sb where "scratchDir e b \<notin> files s" "diskPath e b \<notin> dirs s"
            "afterCreate e b (diskPath e b) name (acquired e b s) = (r, sb)"
            "s' = deferredCleanup e (diskPath e b) (scratchDir e b) out sb"
proof -
  obtain r1 s1 where m: "os_MkdirAll e (scratchDir e b) s = (r1, s1)"
    by (cases "os_MkdirAll e (scratchDir e b) s")
  from m show thesis
  proof (cases rule: os_MkdirAll_cases)
    case (failed err)
    with assms m have "r = Some err" "s' = emit (EvMkdirAll (scratchDir e b) (Some err)) s"
      by (auto simp: scoped_def)
    then show thesis by (rule sc_mkdir)
  next
    case made
    obtain res s2 where c: "createDisk e b s1 = (res, s2)"
      by (cases "createDisk e b s1")
    from c show thesis
    proof (cases rule: createDisk_cases)
      case (failed err)
      with assms m made c have "r = Some err"
        "s' = emit (EvCreate (diskPath e b) (Some err))
                (emit (EvMkdirAll (scratchDir e b) None)
                   (s\<lparr>dirs := insert (scratchDir e b) (dirs s)\<rparr>))"
        by (auto simp: scoped_def)
      with made show thesis by (intro sc_create) simp_all
    next
      case opened
      have s2: "s2 = acquired e b s"
        using opened made by (simp add: acquired_def emit_def)
      obtain sb where b: "afterCreate e b (diskPath e b) name s2 = (r, sb)"
        and s': "s' = deferredCleanup e (diskPath e b) (scratchDir e b) out sb"
        using assms m made c opened
        by (auto simp: scoped_def withDefer_def split: prod.splits)
      from opened made have "diskPath e b \<notin> dirs s" by (simp add: emit_simps)
      with made b s' s2 show thesis by (intro sc_body) simp_all
    qed
  qed
qed


lemma entry_simps:
  "files (entry e b s) = files s" "dirs (entry e b s) = dirs s"
  "handles (entry e b s) = handles s" "ips (entry e b s) = ips s" "cfg (entry e b s) = cfg s"
  by (simp_all add: entry_def ensureBridge_def emit_simps split: option.splits)

lemma ensureBridge_trace:
  "trace (snd (ensureBridge e s)) = trace s @ bridgeEvents e Firecracker"
  by (simp add: ensureBridge_def bridgeEvents_def emit_simps split: option.splits)

lemma acquired_simps:
  "files (acquired e b s) = insert (diskPath e b) (files s)"
  "dirs (acquired e b s) = insert (scratchDir e b) (dirs s)"
  "handles (acquired e b s) = insert (diskPath e b) (handles s)"
  "ips (acquired e b s) = ips s" "cfg (acquired e b s) = cfg s"
  "trace (acquired e b s) = trace s @ [EvMkdirAll (scratchDir e b) None, EvCreate (diskPath e b) None]"
  by (simp_all add: acquired_def emit_def)

lemma orchestrate_cases:
  assumes "orchestrate b e name out s = (r, s')"
  obtains (rejected) "r = rejection e b" "r \<noteq> None" "s' = s"
    | (bridge) err where "b = Firecracker" "r = Some err" "s' = entry e b s"
    | (mkdir) err x where "r = Some err"
        "x = emit (EvMkdirAll (scratchDir e b) (Some err)) (entry e b s)"
        "s' = (if removesAll b then os_RemoveAll (scratchDir e b) x else x)"
    | (create) err x where "r = Some err" "scratchDir e b \<notin> files s"
        "x = emit (EvCreate (diskPath e b) (Some err))
               (emit (EvMkdirAll (scratchDir e b) None)
                  ((entry e b s)\<lparr>dirs := insert (scratchDir e b) (dirs s)\<rparr>))"
        "s' = (if removesAll b then os_RemoveAll (scratchDir e b) x else x)"
    | (body) sb where "scratchDir e b \<notin> files s" "diskPath e b \<notin> dirs s"
        "afterCreate e b (diskPath e b) name (acquired e b (entry e b s)) = (r, sb)"
        "s' = finalizer e b out sb"
proof -
  note sh = assms [unfolded orchestrate_shape]
  show thesis
  proof (cases "rejection e b")
  case (Some err)
  with sh have "r = Some err" "s' = s"
    by simp_all
  with Some show thesis by (intro rejected) simp_all
next
  case None
  show thesis
  proof (cases "b = Firecracker \<and> fst (ensureBridge e s) \<noteq> None")
    case True
    with sh None have "b = Firecracker" "r = Some (the (fst (ensureBridge e s)))" "s' = entry e b s"
      by (auto simp: entry_def split: prod.splits option.splits)
    then show thesis by (rule bridge)
  next
    case False
    obtain x where x: "scoped e b name out (entry e b s) = (r, x)"
      and s': "s' = (if removesAll b then os_RemoveAll (scratchDir e b) x else x)"
      using sh None False
      by (auto simp: entry_def withDefer_def split: prod.splits option.splits if_splits)
    from x show thesis
    proof (cases rule: scoped_cases)
      case (sc_mkdir err)
      with s' show thesis by (intro mkdir) simp_all
    next
      case (sc_create err)
      with s' show thesis
        by (intro create) (simp_all add: entry_simps)
    next
      case (sc_body sb)
      with s' show thesis
        by (intro body) (auto simp: entry_simps finalizer_def Let_def)
    qed
  qed
  qed
qed

lemma launch_paths:
  assumes "launch e b c f n s = (r, s')"
  shows "(\<exists>err. r = Some err
            \<and> trace s' = trace s @ [EvVdiskBuild f (buildArgs e b) (Some err)])
       \<or> (\<exists>err. r = Some err
            \<and> trace s' = trace s @ [EvVdiskBuild f (buildArgs e b) None, EvClose f (Some err)])
       \<or> (\<exists>err. r = Some err \<and> f \<in> handles s
            \<and> trace s' = trace s @ [EvVdiskBuild f (buildArgs e b) None, EvClose f None,
                                     EvReaderClose (Some err)])
       \<or> (\<exists>err. r = Some err \<and> f \<in> handles s
            \<and> trace s' = trace s @ [EvVdiskBuild f (buildArgs e b) None, EvClose f None,
                                     EvReaderClose None, EvAlloc b,
                                     EvInitialize (Marshal e c) (Some err)])
       \<or> (\<exists>err. r = Some err \<and> f \<in> handles s
            \<and> trace s' = trace s @ [EvVdiskBuild f (buildArgs e b) None, EvClose f None,
                                     EvReaderClose None, EvAlloc b,
                                     EvInitialize (Marshal e c) None, EvWithDefaults (Some err)])
       \<or> (r = run_err e \<and> f \<in> handles s
            \<and> trace s' = trace s @ [EvVdiskBuild f (buildArgs e b) None, EvClose f None,
                                     EvReaderClose None, EvAlloc b,
                                     EvInitialize (Marshal e c) None, EvWithDefaults None,
                                     EvRun f (cfg s') n (run_err e)])"
  using assms
  unfolding launch_def andThen_def vdisk_Build_def File_Close_def Reader_Close_def Alloc_def
    Initialize_def WithDefaults_def run_def emit_def
  by (auto split: prod.splits option.splits if_splits)

subsection \<open>The address loop and the image builder\<close>

lemma openStack_step:
  assumes "openStack e s = (r, d1, s1)"
  shows "files s1 = files s \<and> dirs s1 = dirs s \<and> handles s1 = handles s \<and> cfg s1 = cfg s
         \<and> (\<exists>evs. trace s1 = trace s @ evs \<and> (\<forall>ev \<in> set evs. quiet ev))"
  using assms by (auto simp: openStack_def emit_def split: option.splits sum.splits)

lemma ips_Dequeue_step:
  assumes "ips_Dequeue s = (r, s1)"
  shows "files s1 = files s \<and> dirs s1 = dirs s \<and> handles s1 = handles s \<and> cfg s1 = cfg s
         \<and> (\<exists>evs. trace s1 = trace s @ evs \<and> (\<forall>ev \<in> set evs. quiet ev))"
  using assms by (auto simp: ips_Dequeue_def emit_def split: option.splits list.splits if_splits)

lemma assignNetwork_simps:
  "files (assignNetwork i ip s) = files s" "dirs (assignNetwork i ip s) = dirs s"
  "handles (assignNetwork i ip s) = handles s" "ips (assignNetwork i ip s) = ips s"
  "trace (assignNetwork i ip s) = trace s"
  "Kernel (cfg (assignNetwork i ip s)) = Kernel (cfg s)"
  "length (Networks (cfg (assignNetwork i ip s))) = length (Networks (cfg s))"
  by (simp_all add: assignNetwork_def)

lemma networksLoop_frame:
  assumes "networksLoop e idx d s = (r, d', s')"
  shows "files s' = files s \<and> dirs s' = dirs s \<and> handles s' = handles s
         \<and> Kernel (cfg s') = Kernel (cfg s)
         \<and> length (Networks (cfg s')) = length (Networks (cfg s))
         \<and> (\<exists>evs. trace s' = trace s @ evs \<and> (\<forall>ev \<in> set evs. quiet ev))"
  using assms
proof (induction idx arbitrary: d s)
  case Nil
  then show ?case by simp
next
  case (Cons i rest)
  obtain r1 d1 s1 where o: "openStack e s = (r1, d1, s1)"
    by (cases "openStack e s") auto
  note os = openStack_step [OF o]
  show ?case
  proof (cases r1)
    case (Some err)
    with Cons.prems o os show ?thesis by auto
  next
    case None
    obtain r2 s2 where q: "ips_Dequeue s1 = (r2, s2)"
      by (cases "ips_Dequeue s1")
    note qs = ips_Dequeue_step [OF q]
    show ?thesis
    proof (cases r2)
      case (Inl err)
      with Cons.prems o None q have "s' = s2" by simp
      with os qs show ?thesis by auto
    next
      case (Inr ip)
      with Cons.prems o None q
      have rec: "networksLoop e rest (d \<or> d1) (assignNetwork i ip s2) = (r, d', s')" by simp
      from Cons.IH [OF rec] os qs show ?thesis
        by (auto simp: assignNetwork_simps)
    qed
  qed
qed

lemma quiet_pathsI:
  assumes "trace s' = trace s @ pre @ mid @ post"
    and "\<forall>ev \<in> set pre. quiet ev" and "\<forall>ev \<in> set post. quiet ev" and "P mid"
  shows "\<exists>pre mid post. trace s' = trace s @ pre @ mid @ post
           \<and> (\<forall>ev \<in> set pre. quiet ev) \<and> (\<forall>ev \<in> set post. quiet ev) \<and> P mid"
  using assms by blast

lemma buildImage_paths:
  assumes "buildImage e w args s = (res, s')"
  shows "files s' = files s \<and> dirs s' = dirs s \<and> handles s' = handles s \<and> cfg s' = cfg s
         \<and> ips s' = ips s
         \<and> (\<exists>pre mid post. trace s' = trace s @ pre @ mid @ post
               \<and> (\<forall>ev \<in> set pre. quiet ev) \<and> (\<forall>ev \<in> set post. quiet ev)
               \<and> ((res = Inr (KernelUsed e)
                      \<and> mid = [EvFormatBuild w (Format args) None, EvKernelUsed (KernelUsed e)])
                    \<or> (\<exists>err. res = Inl err
                          \<and> (mid = [] \<or> mid = [EvFormatBuild w (Format args) (Some err)]))))"
proof -
  let ?P = "\<lambda>mid. (res = Inr (KernelUsed e)
                      \<and> mid = [EvFormatBuild w (Format args) None, EvKernelUsed (KernelUsed e)])
                    \<or> (\<exists>err. res = Inl err
                          \<and> (mid = [] \<or> mid = [EvFormatBuild w (Format args) (Some err)]))"
  let ?opening = "[EvCreateBuilder (Shell args) None, EvSetDefaultMTU (Format args)]"
  have frame: "files s' = files s \<and> dirs s' = dirs s \<and> handles s' = handles s
                 \<and> cfg s' = cfg s \<and> ips s' = ips s"
    using assms
    by (auto simp: buildImage_def withDefer_def Let_def emit_def split: option.splits)
  have "\<exists>pre mid post. trace s' = trace s @ pre @ mid @ post
           \<and> (\<forall>ev \<in> set pre. quiet ev) \<and> (\<forall>ev \<in> set post. quiet ev) \<and> ?P mid"
  proof (cases "CreateBuilder_err e")
    case (Some err)
    with assms show ?thesis
      by (intro quiet_pathsI [where pre = "[EvCreateBuilder (Shell args) (Some err)]"
            and mid = "[]" and post = "[]"])
         (auto simp: buildImage_def emit_def)
  next
    case None
    note cb = None
    show ?thesis
    proof (cases "NegotiateSize_err e")
      case (Some err)
      with assms cb show ?thesis
        by (intro quiet_pathsI [where pre = "?opening @ [EvNegotiateSize (Some err), EvBuilderClose]"
              and mid = "[]" and post = "[]"])
           (auto simp: buildImage_def withDefer_def Let_def emit_def)
    next
      case None
      note ns = None
      show ?thesis
      proof (cases "FormatBuild_err e")
        case (Some err)
        with assms cb ns show ?thesis
          by (intro quiet_pathsI [where pre = "?opening @ [EvNegotiateSize None]"
                and mid = "[EvFormatBuild w (Format args) (Some err)]"
                and post = "[EvBuilderClose]"])
             (auto simp: buildImage_def withDefer_def Let_def emit_def)
      next
        case None
        with assms cb ns show ?thesis
          by (intro quiet_pathsI [where pre = "?opening @ [EvNegotiateSize None]"
                and mid = "[EvFormatBuild w (Format args) None, EvKernelUsed (KernelUsed e)]"
                and post = "[EvBuilderClose]"])
             (auto simp: buildImage_def withDefer_def Let_def emit_def)
      qed
    qed
  qed
  with frame show ?thesis by blast
qed

lemma ips_Close_simps:
  "files (ips_Close s) = files s" "dirs (ips_Close s) = dirs s"
  "handles (ips_Close s) = handles s" "cfg (ips_Close s) = cfg s"
  "trace (ips_Close s) = trace s @ [EvIpsClose]"
  by (simp_all add: ips_Close_def emit_def)

lemma buildFirecracker_paths:
  assumes "buildFirecracker e w args s = (res, s')"
  shows "files s' = files s \<and> dirs s' = dirs s \<and> handles s' = handles s
         \<and> Kernel (cfg s') = Kernel (cfg s)
         \<and> (\<exists>pre mid post. trace s' = trace s @ pre @ mid @ post
               \<and> (\<forall>ev \<in> set pre. quiet ev) \<and> (\<forall>ev \<in> set post. quiet ev)
               \<and> ((res = Inr (KernelUsed e)
                      \<and> mid = [EvFormatBuild w (Format args) None, EvKernelUsed (KernelUsed e)])
                    \<or> (\<exists>err. res = Inl err
                          \<and> (mid = [] \<or> mid = [EvFormatBuild w (Format args) (Some err)]))))"
proof -
  let ?P = "\<lambda>mid. (res = Inr (KernelUsed e)
                      \<and> mid = [EvFormatBuild w (Format args) None, EvKernelUsed (KernelUsed e)])
                    \<or> (\<exists>err. res = Inl err
                          \<and> (mid = [] \<or> mid = [EvFormatBuild w (Format args) (Some err)]))"
  obtain r d s1 where l: "networksLoop e [0..<length (Networks (cfg s))] False s = (r, d, s1)"
    by (cases "networksLoop e [0..<length (Networks (cfg s))] False s") auto
  from networksLoop_frame [OF l] obtain evs where
    f1: "files s1 = files s" "dirs s1 = dirs s" "handles s1 = handles s"
        "Kernel (cfg s1) = Kernel (cfg s)"
    and t1: "trace s1 = trace s @ evs" and q1: "\<forall>ev \<in> set evs. quiet ev"
    by blast
  let ?close = "if d then [EvIpsClose] else []"
  show ?thesis
  proof (cases r)
    case (Some err)
    with assms l have res: "res = Inl err" and s': "s' = (if d then ips_Close s1 else s1)"
      by (simp_all add: buildFirecracker_def)
    have "trace s' = trace s @ (evs @ ?close) @ [] @ []"
      using s' t1 by (simp add: ips_Close_simps)
    then have "\<exists>pre mid post. trace s' = trace s @ pre @ mid @ post
           \<and> (\<forall>ev \<in> set pre. quiet ev) \<and> (\<forall>ev \<in> set post. quiet ev) \<and> ?P mid"
      by (rule quiet_pathsI [where P = ?P]) (use q1 res in auto)
    with f1 s' show ?thesis by (auto simp: ips_Close_simps)
  next
    case None
    obtain s2 where b: "buildImage e w args s1 = (res, s2)"
      and s': "s' = (if d then ips_Close s2 else s2)"
      using assms l None by (auto simp: buildFirecracker_def split: prod.splits)
    from buildImage_paths [OF b] obtain pre mid post where
      f2: "files s2 = files s1" "dirs s2 = dirs s1" "handles s2 = handles s1" "cfg s2 = cfg s1"
      and t2: "trace s2 = trace s1 @ pre @ mid @ post"
      and q2: "\<forall>ev \<in> set pre. quiet ev" "\<forall>ev \<in> set post. quiet ev" and p: "?P mid"
      by blast
    have "trace s' = trace s @ (evs @ pre) @ mid @ (post @ ?close)"
      using s' t1 t2 by (simp add: ips_Close_simps)
    then have "\<exists>pre mid post. trace s' = trace s @ pre @ mid @ post
           \<and> (\<forall>ev \<in> set pre. quiet ev) \<and> (\<forall>ev \<in> set post. quiet ev) \<and> ?P mid"
      by (rule quiet_pathsI [where P = ?P]) (use q1 q2 p in auto)
    with f1 f2 s' show ?thesis by (auto simp: ips_Close_simps)
  qed
qed

lemma quiet_not:
  assumes "quiet ev"
  shows "\<not> lifecycle ev" "\<not> kernelFlow ev" "\<not> isClose ev" "\<not> buildOk ev" "\<not> isBuild ev"
    "\<not> afterRelocation ev" "ev \<noteq> EvReaderClose x" "ev \<noteq> EvCreate p y" "ev \<noteq> EvRename p q y"
  using assms by (cases ev; simp)+

lemma quiet_filter:
  assumes "\<forall>ev \<in> set xs. quiet ev"
  shows "filter lifecycle xs = []" "filter kernelFlow xs = []" "filter isClose xs = []"
    "filter buildOk xs = []" "EvReaderClose x \<notin> set xs"
  using assms by (auto simp: filter_empty_conv dest: quiet_not)

lemma fc_tail_paths:
  assumes "(andThen (File_Close e f) (andThen (Reader_Close e)
             (andThen (\<lambda>s. Initialize e (Marshal e FirecrackerConfig)
                              (warnGUI e (Alloc Firecracker s)))
                      (run e f n)))) s = (r, s')"
  shows "files s' = files s \<and> dirs s' = dirs s \<and> cfg s' = cfg s
       \<and> (\<exists>tl. trace s' = trace s @ tl
            \<and> (r = None \<longrightarrow> f \<in> handles s \<and> f \<notin> handles s'
                  \<and> filter lifecycle tl = [EvReaderClose None, EvAlloc Firecracker,
                        EvInitialize (Marshal e FirecrackerConfig) None, EvRun f (cfg s) n None]
                  \<and> filter kernelFlow tl = [EvInitialize (Marshal e FirecrackerConfig) None,
                        EvRun f (cfg s) n None]
                  \<and> filter isClose tl = [EvClose f None])
            \<and> (\<forall>err. EvReaderClose (Some err) \<in> set tl \<longrightarrow>
                  r = Some err \<and> filter lifecycle tl = [EvReaderClose (Some err)]))"
  using assms
  unfolding andThen_def File_Close_def Reader_Close_def Alloc_def warnGUI_def
    Initialize_def run_def emit_def
  by (auto split: prod.splits option.splits if_splits)

lemma launchFirecracker_facts:
  assumes "launchFirecracker e f n s = (r, s')"
  shows "files s' = files s \<and> dirs s' = dirs s
       \<and> (\<exists>evs. trace s' = trace s @ evs
            \<and> (r = None \<longrightarrow> f \<in> handles s \<and> f \<notin> handles s'
                  \<and> Kernel (cfg s') = KernelUsed e
                  \<and> filter lifecycle evs = [EvFormatBuild f Firecracker None, EvReaderClose None,
                        EvAlloc Firecracker, EvInitialize (Marshal e FirecrackerConfig) None,
                        EvRun f (cfg s') n None]
                  \<and> filter kernelFlow evs = [EvFormatBuild f Firecracker None,
                        EvKernelUsed (KernelUsed e), EvAssignKernel (KernelUsed e),
                        EvInitialize (Marshal e FirecrackerConfig) None, EvRun f (cfg s') n None]
                  \<and> filter isClose evs = [EvClose f None])
            \<and> (\<forall>err. EvReaderClose (Some err) \<in> set evs \<longrightarrow>
                  r = Some err
                  \<and> filter lifecycle evs = [EvFormatBuild f Firecracker None,
                                              EvReaderClose (Some err)]))"
proof -
  obtain wr c where w: "WithDefaults_res e (cfg s) = (wr, c)"
    by (cases "WithDefaults_res e (cfg s)")
  define s1 where "s1 = emit (EvWithDefaults wr) (s\<lparr>cfg := c\<rparr>)"
  have wd: "WithDefaults e s = (wr, s1)"
    by (simp add: WithDefaults_def w s1_def)
  have s1: "files s1 = files s" "dirs s1 = dirs s" "handles s1 = handles s"
    "trace s1 = trace s @ [EvWithDefaults wr]"
    by (simp_all add: s1_def emit_def)
  show ?thesis
  proof (cases wr)
    case (Some err)
    with assms wd have "r = Some err" "s' = s1"
      by (simp_all add: launchFirecracker_def andThen_def)
    with s1 show ?thesis by simp
  next
    case None
    obtain res s2 where b: "buildFirecracker e f (buildArgs e Firecracker) s1 = (res, s2)"
      by (cases "buildFirecracker e f (buildArgs e Firecracker) s1")
    from buildFirecracker_paths [OF b] obtain pre mid post where
      f2: "files s2 = files s1" "dirs s2 = dirs s1" "handles s2 = handles s1"
      and t2: "trace s2 = trace s1 @ pre @ mid @ post"
      and q: "\<forall>ev \<in> set pre. quiet ev" "\<forall>ev \<in> set post. quiet ev"
      and p: "(res = Inr (KernelUsed e)
                 \<and> mid = [EvFormatBuild f Firecracker None, EvKernelUsed (KernelUsed e)])
              \<or> (\<exists>err. res = Inl err
                    \<and> (mid = [] \<or> mid = [EvFormatBuild f Firecracker (Some err)]))"
      by (auto simp: buildArgs_def)
    note qf = quiet_filter [OF q(1)] quiet_filter [OF q(2)]
    show ?thesis
    proof (cases res)
      case (Inl err)
      with assms wd None b have "r = Some err" "s' = s2"
        by (simp_all add: launchFirecracker_def andThen_def)
      moreover have "trace s2 = trace s @ (EvWithDefaults wr # pre @ mid @ post)"
        using t2 s1 by simp
      ultimately show ?thesis
        using f2 s1 p Inl qf by auto
    next
      case (Inr k)
      with p have k: "k = KernelUsed e"
        and mid: "mid = [EvFormatBuild f Firecracker None, EvKernelUsed (KernelUsed e)]"
        by auto
      define s3 where "s3 = assignKernel k s2"
      have s3: "files s3 = files s2" "dirs s3 = dirs s2" "handles s3 = handles s2"
        "Kernel (cfg s3) = k" "trace s3 = trace s2 @ [EvAssignKernel k]"
        by (simp_all add: s3_def assignKernel_def emit_def)
      have tail: "(andThen (File_Close e f) (andThen (Reader_Close e)
             (andThen (\<lambda>s. Initialize e (Marshal e FirecrackerConfig)
                              (warnGUI e (Alloc Firecracker s)))
                      (run e f n)))) s3 = (r, s')"
        using assms wd None b Inr
        by (simp add: launchFirecracker_def andThen_def s3_def)
      from fc_tail_paths [OF tail] obtain tl where
        f4: "files s' = files s3" "dirs s' = dirs s3" "cfg s' = cfg s3"
        and t4: "trace s' = trace s3 @ tl"
        and ok: "r = None \<longrightarrow> f \<in> handles s3 \<and> f \<notin> handles s'
                  \<and> filter lifecycle tl = [EvReaderClose None, EvAlloc Firecracker,
                        EvInitialize (Marshal e FirecrackerConfig) None, EvRun f (cfg s3) n None]
                  \<and> filter kernelFlow tl = [EvInitialize (Marshal e FirecrackerConfig) None,
                        EvRun f (cfg s3) n None]
                  \<and> filter isClose tl = [EvClose f None]"
        and rc: "\<forall>err. EvReaderClose (Some err) \<in> set tl \<longrightarrow>
                  r = Some err \<and> filter lifecycle tl = [EvReaderClose (Some err)]"
        by blast
      have tr: "trace s' = trace s @ (EvWithDefaults wr # pre @ mid @ post @ EvAssignKernel k # tl)"
        using t4 s3 t2 s1 by simp
      show ?thesis
        using tr f4 s3 f2 s1 ok rc mid k qf by auto
    qed
  qed
qed

subsection \<open>What the statements after the closure do\<close>

lemma launch_frame:
  assumes "launch e b c f n s = (r, s')"
  shows "files s' = files s" "dirs s' = dirs s" "ips s' = ips s"
  using assms
  unfolding launch_def andThen_def vdisk_Build_def File_Close_def Reader_Close_def Alloc_def
    Initialize_def WithDefaults_def run_def emit_def
  by (auto split: prod.splits option.splits if_splits)

lemma launch_handles:
  assumes "launch e b c f n s = (None, s')"
  shows "f \<notin> handles s'"
  using assms
  unfolding launch_def andThen_def vdisk_Build_def File_Close_def Reader_Close_def Alloc_def
    Initialize_def WithDefaults_def run_def emit_def
  by (auto split: prod.splits option.splits if_splits)

lemma launch_facts:
  assumes "launch e b c f n s = (r, s')"
  shows "\<exists>evs. trace s' = trace s @ evs
            \<and> (r = None \<longrightarrow> f \<in> handles s \<and> f \<notin> handles s'
                  \<and> filter lifecycle evs = [EvVdiskBuild f (buildArgs e b) None,
                        EvReaderClose None, EvAlloc b, EvInitialize (Marshal e c) None,
                        EvRun f (cfg s') n None]
                  \<and> filter isClose evs = [EvClose f None])
            \<and> (\<forall>err. EvReaderClose (Some err) \<in> set evs \<longrightarrow>
                  r = Some err
                  \<and> filter lifecycle evs = [EvVdiskBuild f (buildArgs e b) None,
                                              EvReaderClose (Some err)])"
  using launch_paths [OF assms] launch_handles [of e b c f n s s'] assms
  by (elim disjE exE conjE) auto

lemma afterCreate_facts:
  assumes "afterCreate e b f n s = (r, sb)"
  shows "files sb = files s \<and> dirs sb = dirs s
       \<and> (\<exists>evs. trace sb = trace s @ evs
            \<and> (r = None \<longrightarrow> f \<in> handles s \<and> f \<notin> handles sb
                  \<and> filter isClose evs = [EvClose f None]
                  \<and> (\<exists>bev d. buildOk bev
                        \<and> filter lifecycle evs = [bev, EvReaderClose None, EvAlloc b,
                              EvInitialize d None, EvRun f (cfg sb) n None]))
            \<and> (\<forall>err. EvReaderClose (Some err) \<in> set evs \<longrightarrow>
                  r = Some err
                  \<and> (\<exists>bev. buildOk bev
                        \<and> filter lifecycle evs = [bev, EvReaderClose (Some err)])))"
proof (cases "b = Firecracker")
  case True
  with assms have l: "launchFirecracker e f n s = (r, sb)" by simp
  from launchFirecracker_facts [OF l] obtain evs where
    fr: "files sb = files s" "dirs sb = dirs s" and tr: "trace sb = trace s @ evs"
    and ok: "r = None \<longrightarrow> f \<in> handles s \<and> f \<notin> handles sb
                  \<and> filter lifecycle evs = [EvFormatBuild f Firecracker None, EvReaderClose None,
                        EvAlloc Firecracker, EvInitialize (Marshal e FirecrackerConfig) None,
                        EvRun f (cfg sb) n None]
                  \<and> filter isClose evs = [EvClose f None]"
    and rc: "\<forall>err. EvReaderClose (Some err) \<in> set evs \<longrightarrow>
                  r = Some err
                  \<and> filter lifecycle evs = [EvFormatBuild f Firecracker None,
                                              EvReaderClose (Some err)]"
    by blast
  have "(r = None \<longrightarrow> f \<in> handles s \<and> f \<notin> handles sb
                  \<and> filter isClose evs = [EvClose f None]
                  \<and> (\<exists>bev d. buildOk bev
                        \<and> filter lifecycle evs = [bev, EvReaderClose None, EvAlloc b,
                              EvInitialize d None, EvRun f (cfg sb) n None]))"
    using ok True by auto
  moreover have "(\<forall>err. EvReaderClose (Some err) \<in> set evs \<longrightarrow>
                  r = Some err
                  \<and> (\<exists>bev. buildOk bev
                        \<and> filter lifecycle evs = [bev, EvReaderClose (Some err)]))"
    using rc by auto
  ultimately show ?thesis using fr tr by blast
next
  case False
  then obtain c where l: "launch e b c f n s = (r, sb)"
    using assms by (cases b) auto
  from launch_facts [OF l] obtain evs where
    tr: "trace sb = trace s @ evs"
    and ok: "r = None \<longrightarrow> f \<in> handles s \<and> f \<notin> handles sb
                  \<and> filter lifecycle evs = [EvVdiskBuild f (buildArgs e b) None,
                        EvReaderClose None, EvAlloc b, EvInitialize (Marshal e c) None,
                        EvRun f (cfg sb) n None]
                  \<and> filter isClose evs = [EvClose f None]"
    and rc: "\<forall>err. EvReaderClose (Some err) \<in> set evs \<longrightarrow>
                  r = Some err
                  \<and> filter lifecycle evs = [EvVdiskBuild f (buildArgs e b) None,
                                              EvReaderClose (Some err)]"
    by blast
  have "(r = None \<longrightarrow> f \<in> handles s \<and> f \<notin> handles sb
                  \<and> filter isClose evs = [EvClose f None]
                  \<and> (\<exists>bev d. buildOk bev
                        \<and> filter lifecycle evs = [bev, EvReaderClose None, EvAlloc b,
                              EvInitialize d None, EvRun f (cfg sb) n None]))"
    using ok by auto
  moreover have "(\<forall>err. EvReaderClose (Some err) \<in> set evs \<longrightarrow>
                  r = Some err
                  \<and> (\<exists>bev. buildOk bev
                        \<and> filter lifecycle evs = [bev, EvReaderClose (Some err)]))"
    using rc by auto
  ultimately show ?thesis using launch_frame [OF l] tr by blast
qed

subsection \<open>The deferred calls\<close>

lemma File_Close_simps:
  "files (snd (File_Close e f s)) = files s"
  "dirs (snd (File_Close e f s)) = dirs s"
  "ips (snd (File_Close e f s)) = ips s"
  "cfg (snd (File_Close e f s)) = cfg s"
  "handles (snd (File_Close e f s)) = handles s - {f}"
  "trace (snd (File_Close e f s)) =
     trace s @ [EvClose f (if f \<in> handles s then Close_err e else Some ErrClosed)]"
  by (auto simp: File_Close_def emit_def)

lemma saveDisk_simps:
  "files (snd (saveDisk e src dst s)) =
     (if src \<in> files s \<and> dst \<notin> dirs s \<and> Rename_err e = None
      then insert dst (files s - {src}) else files s)"
  "dirs (snd (saveDisk e src dst s)) = dirs s"
  "ips (snd (saveDisk e src dst s)) = ips s"
  "cfg (snd (saveDisk e src dst s)) = cfg s"
  "handles (snd (saveDisk e src dst s)) = handles s"
  by (auto simp: saveDisk_def os_Rename_def emit_def Let_def split: prod.splits option.splits)

lemma saveDisk_trace:
  "\<exists>rr. trace (snd (saveDisk e src dst s)) =
     trace s @ [EvLog (''Copying Disk to '' @ dst), EvRename src dst rr,
                EvLog (if rr = None then ''Copied Disk'' else ''Failed to Copy Disk to '' @ dst)]"
  by (auto simp: saveDisk_def os_Rename_def emit_def Let_def split: prod.splits option.splits)

lemma os_Remove_simps:
  "files (snd (os_Remove p s)) = files s - {p}"
  "dirs (snd (os_Remove p s)) =
     (if p \<notin> files s \<and> \<not> (\<exists>q \<in> files s \<union> dirs s. inside p q) then dirs s - {p} else dirs s)"
  "ips (snd (os_Remove p s)) = ips s"
  "cfg (snd (os_Remove p s)) = cfg s"
  "handles (snd (os_Remove p s)) = handles s"
  "trace (snd (os_Remove p s)) = trace s @ [EvRemove p (fst (os_Remove p s))]"
  by (auto simp: os_Remove_def emit_def)

lemma os_RemoveAll_simps:
  "files (os_RemoveAll p s) = {q \<in> files s. q \<noteq> p \<and> \<not> inside p q}"
  "dirs (os_RemoveAll p s) = {q \<in> dirs s. q \<noteq> p \<and> \<not> inside p q}"
  "ips (os_RemoveAll p s) = ips s"
  "cfg (os_RemoveAll p s) = cfg s"
  "handles (os_RemoveAll p s) = handles s"
  "trace (os_RemoveAll p s) = trace s @ [EvRemoveAll p]"
  by (auto simp: os_RemoveAll_def emit_def)

lemma cleanup_simps:
  "files (deferredCleanup e f parent out s) =
     (if out \<noteq> [] \<and> f \<in> files s \<and> out \<notin> dirs s \<and> Rename_err e = None
      then insert out (files s - {f}) else files s) - {f} - {parent}"
  "handles (deferredCleanup e f parent out s) = handles s - {f}"
  "ips (deferredCleanup e f parent out s) = ips s"
  "cfg (deferredCleanup e f parent out s) = cfg s"
  by (simp_all add: deferredCleanup_def Let_def File_Close_simps saveDisk_simps os_Remove_simps)

lemma cleanup_trace:
  "\<exists>rr r1 r2.
     trace (deferredCleanup e f parent out s) =
       trace s @ [EvClose f (if f \<in> handles s then Close_err e else Some ErrClosed)]
         @ (if out \<noteq> []
            then [EvLog (''Copying Disk to '' @ out), EvRename f out rr,
                  EvLog (if rr = None then ''Copied Disk'' else ''Failed to Copy Disk to '' @ out)]
            else [])
         @ [EvRemove f r1, EvRemove parent r2]"
proof (cases "out = []")
  case True
  then show ?thesis
    by (simp add: deferredCleanup_def Let_def File_Close_simps os_Remove_simps)
next
  case False
  obtain rr where "trace (snd (saveDisk e f out (snd (File_Close e f s)))) =
     trace (snd (File_Close e f s)) @ [EvLog (''Copying Disk to '' @ out), EvRename f out rr,
                EvLog (if rr = None then ''Copied Disk'' else ''Failed to Copy Disk to '' @ out)]"
    using saveDisk_trace by blast
  with False show ?thesis
    by (simp add: deferredCleanup_def Let_def File_Close_simps os_Remove_simps)
qed

subsection \<open>The trace of an orchestration call\<close>

lemma newEvents_append: "trace s' = trace s @ xs \<Longrightarrow> newEvents s s' = xs"
  by (simp add: newEvents_def)

lemma early_not:
  assumes "early ev"
  shows "\<not> lifecycle ev" "\<not> kernelFlow ev" "\<not> isClose ev" "\<not> buildOk ev" "\<not> isBuild ev"
    "ev \<noteq> EvReaderClose x" "ev \<noteq> EvCreate p None" "ev \<noteq> EvRename p q y"
  using assms by (cases ev; simp)+

lemma early_filter:
  assumes "\<forall>ev \<in> set xs. early ev"
  shows "filter lifecycle xs = []" "filter kernelFlow xs = []" "filter isClose xs = []"
    "filter buildOk xs = []" "EvReaderClose x \<notin> set xs" "EvCreate p None \<notin> set xs"
    "EvRename p q y \<notin> set xs"
  using assms by (auto simp: filter_empty_conv dest: early_not)

lemma bridgeEvents_early: "\<forall>ev \<in> set (bridgeEvents e b). early ev"
  by (auto simp: bridgeEvents_def split: option.splits)

lemma entry_trace: "trace (entry e b s) = trace s @ bridgeEvents e b"
  by (simp add: entry_def bridgeEvents_def ensureBridge_def emit_def split: option.splits)

lemma orchestrate_events:
  assumes "orchestrate b e name out s = (r, s')"
  obtains (early) "r \<noteq> None" "\<forall>ev \<in> set (newEvents s s'). early ev"
    | (body) evs sb rr r1 r2 where
        "scratchDir e b \<notin> files s" "diskPath e b \<notin> dirs s"
        "afterCreate e b (diskPath e b) name (acquired e b (entry e b s)) = (r, sb)"
        "s' = finalizer e b out sb"
        "trace sb = trace (acquired e b (entry e b s)) @ evs"
        "newEvents s s' =
           bridgeEvents e b @ [EvMkdirAll (scratchDir e b) None, EvCreate (diskPath e b) None]
           @ evs
           @ [EvClose (diskPath e b)
                (if diskPath e b \<in> handles sb then Close_err e else Some ErrClosed)]
           @ (if out \<noteq> []
              then [EvLog (''Copying Disk to '' @ out), EvRename (diskPath e b) out rr,
                    EvLog (if rr = None then ''Copied Disk''
                           else ''Failed to Copy Disk to '' @ out)]
              else [])
           @ [EvRemove (diskPath e b) r1, EvRemove (scratchDir e b) r2]
           @ (if removesAll b then [EvRemoveAll (scratchDir e b)] else [])"
  using assms
proof (cases rule: orchestrate_cases)
  case rejected
  then show ?thesis by (intro early) (simp_all add: newEvents_def)
next
  case (bridge err)
  then have "newEvents s s' = bridgeEvents e b"
    by (simp add: newEvents_append entry_trace)
  with bridge bridgeEvents_early show ?thesis by (intro early) simp_all
next
  case (mkdir err x)
  then have "newEvents s s' = bridgeEvents e b @ [EvMkdirAll (scratchDir e b) (Some err)]
               @ (if removesAll b then [EvRemoveAll (scratchDir e b)] else [])"
    by (intro newEvents_append) (simp add: entry_trace emit_def os_RemoveAll_simps)
  with mkdir bridgeEvents_early show ?thesis by (intro early) auto
next
  case (create err x)
  then have "newEvents s s' = bridgeEvents e b @ [EvMkdirAll (scratchDir e b) None,
                 EvCreate (diskPath e b) (Some err)]
               @ (if removesAll b then [EvRemoveAll (scratchDir e b)] else [])"
    by (intro newEvents_append) (simp add: entry_trace emit_def os_RemoveAll_simps)
  with create bridgeEvents_early show ?thesis by (intro early) auto
next
  case (body sb)
  from afterCreate_facts [OF body(3)] obtain evs where
    tr: "trace sb = trace (acquired e b (entry e b s)) @ evs" by blast
  obtain rr r1 r2 where
    ct: "trace (deferredCleanup e (diskPath e b) (scratchDir e b) out sb) =
       trace sb @ [EvClose (diskPath e b)
                     (if diskPath e b \<in> handles sb then Close_err e else Some ErrClosed)]
         @ (if out \<noteq> []
            then [EvLog (''Copying Disk to '' @ out), EvRename (diskPath e b) out rr,
                  EvLog (if rr = None then ''Copied Disk'' else ''Failed to Copy Disk to '' @ out)]
            else [])
         @ [EvRemove (diskPath e b) r1, EvRemove (scratchDir e b) r2]"
    using cleanup_trace by blast
  have "newEvents s s' =
           bridgeEvents e b @ [EvMkdirAll (scratchDir e b) None, EvCreate (diskPath e b) None]
           @ evs
           @ [EvClose (diskPath e b)
                (if diskPath e b \<in> handles sb then Close_err e else Some ErrClosed)]
           @ (if out \<noteq> []
              then [EvLog (''Copying Disk to '' @ out), EvRename (diskPath e b) out rr,
                    EvLog (if rr = None then ''Copied Disk''
                           else ''Failed to Copy Disk to '' @ out)]
              else [])
           @ [EvRemove (diskPath e b) r1, EvRemove (scratchDir e b) r2]
           @ (if removesAll b then [EvRemoveAll (scratchDir e b)] else [])"
    using body(4) ct tr
    by (intro newEvents_append)
       (simp add: finalizer_def Let_def os_RemoveAll_simps acquired_simps entry_trace)
  with body tr show ?thesis by (intro that(2)) simp_all
qed

subsection \<open>Evaluation at concrete inputs\<close>

lemmas run_defs = runVMware_def runFirecracker_def runHyperV_def runVirtualBox_def runQEMU_def
  launch_def launchFirecracker_def andThen_def withDefer_def deferredCleanup_def saveDisk_def
  buildFirecracker_def buildImage_def buildArgs_def ensureBridge_def assignKernel_def
  warnGUI_def scratchDir_def Join_def inside_def

lemmas prim_defs = os_MkdirAll_def os_Create_def ioutil_TempFile_def File_Close_def
  os_Rename_def os_Remove_def os_RemoveAll_def vdisk_Build_def Reader_Close_def Alloc_def
  Initialize_def WithDefaults_def run_def ips_Dequeue_def ips_Close_def openStack_def
  assignNetwork_def emit_def newEvents_def

lemma env0_simps:
  "GOOS env0 = ''linux''" "IsAvailable env0 b = True"
  "VirtualizerID env0 QEMU = ''qemu''" "VirtualizerID env0 VMware = ''vmware''"
  "VirtualizerID env0 Firecracker = ''firecracker''"
  "TempDir env0 = ''/tmp''" "randHex env0 = ''0a1b2c3d4e''" "tempSuffix env0 = ''7''"
  "flagGUI env0 = False" "flagShell env0 = False" "flagRecord env0 = []"
  "FetchBridgeDevice_err env0 = None" "SetupBridge_err env0 = None"
  "MkdirAll_err env0 = None" "Create_err env0 = None"
  "WithDefaults_res env0 c = (None, c)"
  "NewIPStack_res env0 = Inr [''10.26.10.2'', ''10.26.10.3'', ''10.26.10.4'']"
  "CreateBuilder_err env0 = None" "NegotiateSize_err env0 = None" "FormatBuild_err env0 = None"
  "KernelUsed env0 = ''21.3.6''" "Build_err env0 = None" "Close_err env0 = None"
  "ReaderClose_err env0 = None" "Initialize_err env0 = None" "run_err env0 = None"
  "Rename_err env0 = None"
  by (simp_all add: env0_def)

lemma state0_simps:
  "dirs state0 = {''/tmp''}" "files state0 = {}" "handles state0 = {}" "ips state0 = None"
  "cfg state0 = \<lparr>Networks = [], Kernel = []\<rparr>" "trace state0 = []"
  by (simp_all add: state0_def)

lemma fst_withDefer: "fst (withDefer d body s) = fst (body s)"
  by (simp add: withDefer_def split: prod.splits)

lemmas fst_defs = runVMware_def runFirecracker_def runHyperV_def runVirtualBox_def runQEMU_def
  launch_def launchFirecracker_def andThen_def fst_withDefer
  buildFirecracker_def buildImage_def buildArgs_def ensureBridge_def assignKernel_def
  warnGUI_def scratchDir_def Join_def

subsection \<open>Order of the life cycle\<close>

text \<open>
  Claim C7. In every orchestration call that returns without error, the life-cycle events
  of the call are exactly, in this order: the disk build (which succeeded), one close of the
  package reader, the allocation of the virtualizer, one \<^verbatim>\<open>Initialize\<close>, and the start with
  the path of the disk file. When the close of the package reader fails, the call returns
  that error and the life-cycle events end with the failed close: the virtualizer is
  neither allocated nor initialized nor started.
\<close>

theorem reader_closed_then_initialized_once:
  assumes "orchestrate b e name out s = (r, s')"
  shows "(r = None \<longrightarrow>
            (\<exists>bev d c. buildOk bev
               \<and> filter lifecycle (newEvents s s') =
                   [bev, EvReaderClose None, EvAlloc b, EvInitialize d None,
                    EvRun (diskPath e b) c name None]))
       \<and> (\<forall>err. EvReaderClose (Some err) \<in> set (newEvents s s') \<longrightarrow>
            r = Some err
            \<and> (\<exists>bev. buildOk bev
                  \<and> filter lifecycle (newEvents s s') = [bev, EvReaderClose (Some err)]))"
  using assms
proof (cases rule: orchestrate_events)
  case early
  then show ?thesis by (auto dest: early_filter(5))
next
  case (body evs sb rr r1 r2)
  from afterCreate_facts [OF body(3)] body(5) have
    ok: "r = None \<longrightarrow>
           (\<exists>bev d. buildOk bev
              \<and> filter lifecycle evs = [bev, EvReaderClose None, EvAlloc b,
                    EvInitialize d None, EvRun (diskPath e b) (cfg sb) name None])"
    and rc: "\<forall>err. EvReaderClose (Some err) \<in> set evs \<longrightarrow>
               r = Some err
               \<and> (\<exists>bev. buildOk bev \<and> filter lifecycle evs = [bev, EvReaderClose (Some err)])"
    by auto
  have fl: "filter lifecycle (newEvents s s') = filter lifecycle evs"
    using body(6) early_filter(1) [OF bridgeEvents_early, of e b] by simp
  have mem: "EvReaderClose x \<in> set (newEvents s s') \<longleftrightarrow> EvReaderClose x \<in> set evs" for x
    using body(6) early_filter(5) [OF bridgeEvents_early, of x e b] by auto
  from ok rc show ?thesis
    unfolding fl mem by blast
qed

theorem reader_closed_then_initialized_once_witness:
  "(\<exists>bev d c. buildOk bev
       \<and> filter lifecycle (newEvents state0 (snd (orchestrate QEMU env0 ''vm'' [] state0))) =
           [bev, EvReaderClose None, EvAlloc QEMU, EvInitialize d None,
            EvRun (diskPath env0 QEMU) c ''vm'' None])
   \<and> fst (orchestrate QEMU (env0\<lparr>ReaderClose_err := Some (Error ''io'')\<rparr>) ''vm'' [] state0)
       = Some (Error ''io'')
   \<and> (\<exists>bev. buildOk bev
        \<and> filter lifecycle (newEvents state0
             (snd (orchestrate QEMU (env0\<lparr>ReaderClose_err := Some (Error ''io'')\<rparr>) ''vm'' []
                state0))) = [bev, EvReaderClose (Some (Error ''io''))])"
proof -
  have ok: "fst (orchestrate QEMU env0 ''vm'' [] state0) = None"
    by (simp add: fst_defs prim_defs env0_simps state0_simps Let_def)
  have bad: "EvReaderClose (Some (Error ''io'')) \<in> set (newEvents state0
     (snd (orchestrate QEMU (env0\<lparr>ReaderClose_err := Some (Error ''io'')\<rparr>) ''vm'' [] state0)))"
    by (simp add: run_defs prim_defs env0_simps state0_simps Let_def)
  from reader_closed_then_initialized_once
    [of QEMU env0 "''vm''" "[]" state0 "fst (orchestrate QEMU env0 ''vm'' [] state0)"
        "snd (orchestrate QEMU env0 ''vm'' [] state0)"] ok
  have 1: "\<exists>bev d c. buildOk bev
       \<and> filter lifecycle (newEvents state0 (snd (orchestrate QEMU env0 ''vm'' [] state0))) =
           [bev, EvReaderClose None, EvAlloc QEMU, EvInitialize d None,
            EvRun (diskPath env0 QEMU) c ''vm'' None]"
    by simp
  from reader_closed_then_initialized_once
    [of QEMU "env0\<lparr>ReaderClose_err := Some (Error ''io'')\<rparr>" "''vm''" "[]" state0
        "fst (orchestrate QEMU (env0\<lparr>ReaderClose_err := Some (Error ''io'')\<rparr>) ''vm'' [] state0)"
        "snd (orchestrate QEMU (env0\<lparr>ReaderClose_err := Some (Error ''io'')\<rparr>) ''vm'' [] state0)"]
    bad
  have 2: "fst (orchestrate QEMU (env0\<lparr>ReaderClose_err := Some (Error ''io'')\<rparr>) ''vm'' [] state0)
       = Some (Error ''io'')
   \<and> (\<exists>bev. buildOk bev
        \<and> filter lifecycle (newEvents state0
             (snd (orchestrate QEMU (env0\<lparr>ReaderClose_err := Some (Error ''io'')\<rparr>) ''vm'' []
                state0))) = [bev, EvReaderClose (Some (Error ''io''))])"
    by (simp del: orchestrate.simps)
  from 1 2 show ?thesis by blast
qed

subsection \<open>The kernel version of a firecracker build\<close>

text \<open>
  Claim C4. In every firecracker orchestration that returns without error, the events that
  carry the kernel version are, in this order: the encoder finishes the disk, the image
  builder reports the kernel it used, that value is written into the kernel field of the
  configuration, the virtualizer is initialized, and the virtualizer is started with the
  configuration; the kernel field of the configuration passed to the start (and left to the
  caller) is the value the image builder reported.
\<close>

theorem kernel_version_threaded:
  assumes "orchestrate Firecracker e name out s = (None, s')"
  shows "\<exists>d c. filter kernelFlow (newEvents s s') =
           [EvFormatBuild (diskPath e Firecracker) Firecracker None,
            EvKernelUsed (KernelUsed e), EvAssignKernel (KernelUsed e),
            EvInitialize d None, EvRun (diskPath e Firecracker) c name None]
         \<and> Kernel c = KernelUsed e \<and> Kernel (cfg s') = KernelUsed e"
  using assms
proof (cases rule: orchestrate_events)
  case early
  then show ?thesis by simp
next
  case (body evs sb rr r1 r2)
  from body(3) have l: "launchFirecracker e (diskPath e Firecracker) name
      (acquired e Firecracker (entry e Firecracker s)) = (None, sb)" by simp
  from launchFirecracker_facts [OF l] body(5) have
    k: "Kernel (cfg sb) = KernelUsed e"
    and kf: "filter kernelFlow evs = [EvFormatBuild (diskPath e Firecracker) Firecracker None,
                        EvKernelUsed (KernelUsed e), EvAssignKernel (KernelUsed e),
                        EvInitialize (Marshal e FirecrackerConfig) None,
                        EvRun (diskPath e Firecracker) (cfg sb) name None]"
    by auto
  have fl: "filter kernelFlow (newEvents s s') = filter kernelFlow evs"
    using body(6) early_filter(2) [OF bridgeEvents_early, of e Firecracker] by simp
  have c: "cfg s' = cfg sb"
    using body(4) by (simp add: finalizer_def Let_def cleanup_simps os_RemoveAll_simps)
  from k kf fl c show ?thesis by simp
qed

theorem kernel_version_threaded_witness:
  "\<exists>d c. filter kernelFlow (newEvents (state0\<lparr>cfg := \<lparr>Networks = [net0], Kernel = []\<rparr>\<rparr>)
            (snd (orchestrate Firecracker env0 ''vm'' []
                    (state0\<lparr>cfg := \<lparr>Networks = [net0], Kernel = []\<rparr>\<rparr>)))) =
           [EvFormatBuild (diskPath env0 Firecracker) Firecracker None,
            EvKernelUsed ''21.3.6'', EvAssignKernel ''21.3.6'',
            EvInitialize d None, EvRun (diskPath env0 Firecracker) c ''vm'' None]
         \<and> Kernel c = ''21.3.6''"
proof -
  let ?s = "state0\<lparr>cfg := \<lparr>Networks = [net0], Kernel = []\<rparr>\<rparr>"
  have ok: "fst (orchestrate Firecracker env0 ''vm'' [] ?s) = None"
    by (simp add: run_defs prim_defs env0_simps state0_simps Let_def)
  then have "orchestrate Firecracker env0 ''vm'' [] ?s
               = (None, snd (orchestrate Firecracker env0 ''vm'' [] ?s))"
    by (metis prod.collapse)
  from kernel_version_threaded [OF this] show ?thesis
    by (simp add: env0_simps del: orchestrate.simps) blast
qed

subsection \<open>Running the deferred calls twice\<close>

lemma diskPath_inside: "inside (scratchDir e b) (diskPath e b)"
  by (cases b) (simp_all add: inside_def Join_def)

lemma inside_longer: "inside d p \<Longrightarrow> length d < length p"
  by (auto simp: inside_def prefix_def)

lemma diskPath_facts:
  "diskPath e b \<noteq> scratchDir e b" "\<not> inside (diskPath e b) (scratchDir e b)"
proof -
  have "length (scratchDir e b) < length (diskPath e b)"
    using diskPath_inside inside_longer by blast
  then show "diskPath e b \<noteq> scratchDir e b" by auto
  show "\<not> inside (diskPath e b) (scratchDir e b)"
    using \<open>length (scratchDir e b) < length (diskPath e b)\<close>
      inside_longer [of "diskPath e b" "scratchDir e b"] by auto
qed


lemma cleanup_noop:
  assumes "f \<notin> handles s" "f \<notin> files s" "parent \<notin> files s"
    and "f \<in> dirs s \<longrightarrow> (\<exists>q \<in> files s \<union> dirs s. inside f q)"
    and "parent \<in> dirs s \<longrightarrow> (\<exists>q \<in> files s \<union> dirs s. inside parent q)"
  shows "resources (deferredCleanup e f parent out s) = resources s"
proof -
  define s1 where "s1 = snd (File_Close e f s)"
  define s2 where "s2 = (if out \<noteq> [] then snd (saveDisk e f out s1) else s1)"
  define s3 where "s3 = snd (os_Remove f s2)"
  define s4 where "s4 = snd (os_Remove parent s3)"
  have 1: "resources s1 = resources s"
    using assms(1) by (simp add: s1_def resources_def File_Close_simps)
  have 2: "resources s2 = resources s1"
    using assms(2) 1 by (simp add: s2_def resources_def saveDisk_simps)
  have 3: "resources s3 = resources s2"
    using assms(2,4) 1 2 by (auto simp: s3_def resources_def os_Remove_simps)
  have 4: "resources s4 = resources s3"
    using assms(3,5) 1 2 3 by (auto simp: s4_def resources_def os_Remove_simps)
  have "deferredCleanup e f parent out s = s4"
    by (simp add: deferredCleanup_def Let_def s1_def s2_def s3_def s4_def)
  with 1 2 3 4 show ?thesis by simp
qed


lemma inside_irrefl: "\<not> inside p p"
  using inside_longer [of p p] by auto

lemma cleanup_settles:
  fixes e :: env and f parent out :: path and s :: state
  assumes wf: "files s \<inter> dirs s = {}" and np: "\<not> inside f parent"
  defines "t \<equiv> deferredCleanup e f parent out s"
  shows "f \<notin> handles t \<and> f \<notin> files t \<and> parent \<notin> files t
       \<and> (f \<in> dirs t \<longrightarrow> (\<exists>q \<in> files t \<union> dirs t. inside f q))
       \<and> (parent \<in> dirs t \<longrightarrow> (\<exists>q \<in> files t \<union> dirs t. inside parent q))
       \<and> files t \<inter> dirs t = {}"
proof -
  define s1 where "s1 = snd (File_Close e f s)"
  define s2 where "s2 = (if out \<noteq> [] then snd (saveDisk e f out s1) else s1)"
  define s3 where "s3 = snd (os_Remove f s2)"
  define s4 where "s4 = snd (os_Remove parent s3)"
  have t: "t = s4"
    by (simp add: t_def deferredCleanup_def Let_def s1_def s2_def s3_def s4_def)
  have h: "f \<notin> handles s4"
    by (simp add: s4_def s3_def s2_def s1_def os_Remove_simps saveDisk_simps File_Close_simps)
  have wf2: "files s2 \<inter> dirs s2 = {}"
    using wf by (auto simp: s2_def s1_def saveDisk_simps File_Close_simps split: if_splits)
  have f3: "files s3 = files s2 - {f}"
    and d3: "dirs s3 = (if f \<notin> files s2 \<and> \<not> (\<exists>q \<in> files s2 \<union> dirs s2. inside f q)
                         then dirs s2 - {f} else dirs s2)"
    by (simp_all add: s3_def os_Remove_simps)
  have wf3: "files s3 \<inter> dirs s3 = {}"
    using wf2 f3 d3 by (auto split: if_splits)
  have b3: "f \<in> dirs s3 \<longrightarrow> (\<exists>q \<in> files s3 \<union> dirs s3. inside f q)"
  proof
    assume a: "f \<in> dirs s3"
    then have "f \<in> dirs s2" using d3 by (auto split: if_splits)
    with wf2 have nf: "f \<notin> files s2" by auto
    with a d3 obtain q where q: "q \<in> files s2 \<union> dirs s2" "inside f q"
      by (auto split: if_splits)
    then have "q \<noteq> f" using inside_irrefl by auto
    with q a d3 f3 nf show "\<exists>q \<in> files s3 \<union> dirs s3. inside f q"
      by (auto split: if_splits)
  qed
  have f4: "files s4 = files s3 - {parent}"
    and d4: "dirs s4 = (if parent \<notin> files s3 \<and> \<not> (\<exists>q \<in> files s3 \<union> dirs s3. inside parent q)
                         then dirs s3 - {parent} else dirs s3)"
    by (simp_all add: s4_def os_Remove_simps)
  have wf4: "files s4 \<inter> dirs s4 = {}"
    using wf3 f4 d4 by (auto split: if_splits)
  have b4: "f \<in> dirs s4 \<longrightarrow> (\<exists>q \<in> files s4 \<union> dirs s4. inside f q)"
  proof
    assume a: "f \<in> dirs s4"
    then have "f \<in> dirs s3" using d4 by (auto split: if_splits)
    with b3 obtain q where q: "q \<in> files s3 \<union> dirs s3" "inside f q" by auto
    with np have "q \<noteq> parent" by auto
    with q f4 d4 show "\<exists>q \<in> files s4 \<union> dirs s4. inside f q"
      by (auto split: if_splits)
  qed
  have p4: "parent \<in> dirs s4 \<longrightarrow> (\<exists>q \<in> files s4 \<union> dirs s4. inside parent q)"
  proof
    assume a: "parent \<in> dirs s4"
    then have pd: "parent \<in> dirs s3" using d4 by (auto split: if_splits)
    with wf3 have nf: "parent \<notin> files s3" by auto
    with a d4 obtain q where q: "q \<in> files s3 \<union> dirs s3" "inside parent q"
      by (auto split: if_splits)
    then have "q \<noteq> parent" using inside_irrefl by auto
    with q f4 d4 nf show "\<exists>q \<in> files s4 \<union> dirs s4. inside parent q"
      by (auto split: if_splits)
  qed
  from h f3 f4 b4 p4 wf4 show ?thesis unfolding t by auto
qed


lemma resources_eq:
  "resources s = resources t \<longleftrightarrow>
     dirs s = dirs t \<and> files s = files t \<and> handles s = handles t \<and> ips s = ips t
     \<and> cfg s = cfg t"
  by (auto simp: resources_def)

lemma finalizer_twice:
  assumes wf: "files s \<inter> dirs s = {}"
  shows "resources (finalizer e b out (finalizer e b out s)) = resources (finalizer e b out s)"
proof -
  let ?f = "diskPath e b" and ?p = "scratchDir e b"
  let ?c = "deferredCleanup e ?f ?p out s"
  from cleanup_settles [OF wf diskPath_facts(2), of e b e out]
  have c: "?f \<notin> handles ?c" "?f \<notin> files ?c" "?p \<notin> files ?c"
    "?f \<in> dirs ?c \<longrightarrow> (\<exists>q \<in> files ?c \<union> dirs ?c. inside ?f q)"
    "?p \<in> dirs ?c \<longrightarrow> (\<exists>q \<in> files ?c \<union> dirs ?c. inside ?p q)"
    by blast+
  show ?thesis
  proof (cases "removesAll b")
    case False
    then have "finalizer e b out s = ?c" by (simp add: finalizer_def)
    moreover have "resources (deferredCleanup e ?f ?p out ?c) = resources ?c"
      using c by (intro cleanup_noop) auto
    ultimately show ?thesis using False by (simp add: finalizer_def)
  next
    case True
    let ?t = "os_RemoveAll ?p ?c"
    have t: "finalizer e b out s = ?t" using True by (simp add: finalizer_def)
    have n: "resources (deferredCleanup e ?f ?p out ?t) = resources ?t"
      using c(1) diskPath_inside [of e b]
      by (intro cleanup_noop) (auto simp: os_RemoveAll_simps)
    have "resources (os_RemoveAll ?p (deferredCleanup e ?f ?p out ?t)) = resources ?t"
      using n by (auto simp: resources_eq os_RemoveAll_simps)
    with t True show ?thesis by (simp add: finalizer_def)
  qed
qed

text \<open>
  Claim C9. Running the deferred calls of an entry point a second time, on the state the
  first run left, changes none of the resources (directories, files, open handles, address
  queue, configuration): closing the closed handle and removing what is gone are refused
  by the host and the refusals are dropped. In an orchestration call that returns without
  error the handle of the disk file is closed exactly twice, first by the explicit
  \<^verbatim>\<open>f.Close()\<close>, which succeeds, then by the deferred one, which returns
  \<^verbatim>\<open>os.ErrClosed\<close>; the call returns no error all the same, and finalizing its final state
  once more changes no resource. The file system is taken to be well formed: no path is
  both a regular file and a directory.
\<close>

theorem finalizing_twice_is_harmless:
  "(files s \<inter> dirs s = {} \<longrightarrow>
      resources (finalizer e b out (finalizer e b out s)) = resources (finalizer e b out s))
   \<and> (orchestrate b e name out s = (None, s') \<longrightarrow>
        filter isClose (newEvents s s') =
          [EvClose (diskPath e b) None, EvClose (diskPath e b) (Some ErrClosed)])
   \<and> (orchestrate b e name out s = (None, s') \<and> files s \<inter> dirs s = {} \<longrightarrow>
        resources (finalizer e b out s') = resources s')"
proof (intro conjI impI)
  assume "files s \<inter> dirs s = {}"
  then show "resources (finalizer e b out (finalizer e b out s)) = resources (finalizer e b out s)"
    by (rule finalizer_twice)
next
  assume "orchestrate b e name out s = (None, s')"
  then show "filter isClose (newEvents s s') =
          [EvClose (diskPath e b) None, EvClose (diskPath e b) (Some ErrClosed)]"
  proof (cases rule: orchestrate_events)
    case early
    then show ?thesis by simp
  next
    case (body evs sb rr r1 r2)
    from afterCreate_facts [OF body(3)] body(5) have
      "diskPath e b \<notin> handles sb" "filter isClose evs = [EvClose (diskPath e b) None]"
      by auto
    with body(6) early_filter(3) [OF bridgeEvents_early, of e b] show ?thesis
      by simp
  qed
next
  assume a: "orchestrate b e name out s = (None, s') \<and> files s \<inter> dirs s = {}"
  then have o: "orchestrate b e name out s = (None, s')" and wf: "files s \<inter> dirs s = {}"
    by simp_all
  from o show "resources (finalizer e b out s') = resources s'"
  proof (cases rule: orchestrate_events)
    case early
    then show ?thesis by simp
  next
    case (body evs sb rr r1 r2)
    from afterCreate_facts [OF body(3)] have
      "files sb = insert (diskPath e b) (files s)" "dirs sb = insert (scratchDir e b) (dirs s)"
      by (simp_all add: acquired_simps entry_simps)
    with wf body(1,2) diskPath_facts(1) [of e b] have "files sb \<inter> dirs sb = {}"
      by auto
    from finalizer_twice [OF this] body(4) show ?thesis by simp
  qed
qed


theorem finalizing_twice_is_harmless_witness:
  "resources (finalizer env0 QEMU ''/out/d.raw'' (finalizer env0 QEMU ''/out/d.raw'' state0))
     = resources (finalizer env0 QEMU ''/out/d.raw'' state0)
   \<and> filter isClose (newEvents state0 (snd (orchestrate QEMU env0 ''vm'' ''/out/d.raw'' state0))) =
          [EvClose (diskPath env0 QEMU) None, EvClose (diskPath env0 QEMU) (Some ErrClosed)]
   \<and> resources (finalizer env0 QEMU ''/out/d.raw''
                   (snd (orchestrate QEMU env0 ''vm'' ''/out/d.raw'' state0)))
       = resources (snd (orchestrate QEMU env0 ''vm'' ''/out/d.raw'' state0))"
proof -
  have wf: "files state0 \<inter> dirs state0 = {}"
    by (simp add: state0_simps)
  have "fst (orchestrate QEMU env0 ''vm'' ''/out/d.raw'' state0) = None"
    by (simp add: fst_defs prim_defs env0_simps state0_simps Let_def)
  then have ok: "orchestrate QEMU env0 ''vm'' ''/out/d.raw'' state0
               = (None, snd (orchestrate QEMU env0 ''vm'' ''/out/d.raw'' state0))"
    by (metis prod.collapse)
  from finalizing_twice_is_harmless [of state0 env0 QEMU "''/out/d.raw''" "''vm''"
      "snd (orchestrate QEMU env0 ''vm'' ''/out/d.raw'' state0)"] wf ok
  show ?thesis by blast
qed

subsection \<open>Calls that reach the disk build\<close>




lemma success_has_build:
  assumes "orchestrate b e name out s = (None, s')"
  shows "\<exists>ev \<in> set (newEvents s s'). buildOk ev"
  using assms
proof (cases rule: orchestrate_events)
  case early
  then show ?thesis by simp
next
  case (body evs sb rr r1 r2)
  from afterCreate_facts [OF body(3)] body(5) obtain bev d where
    bev: "buildOk bev" "filter lifecycle evs = [bev, EvReaderClose None, EvAlloc b,
            EvInitialize d None, EvRun (diskPath e b) (cfg sb) name None]"
    by auto
  have "bev \<in> set (filter lifecycle evs)" unfolding bev(2) by simp
  then have "bev \<in> set evs" by simp
  with body(6) bev(1) show ?thesis by auto
qed

subsection \<open>The scratch directory is gone at every return\<close>




subsection \<open>Relocation of the disk\<close>

lemma prims_Rename_err:
  "File_Close (e\<lparr>Rename_err := x\<rparr>) = File_Close e"
  "Reader_Close (e\<lparr>Rename_err := x\<rparr>) = Reader_Close e"
  "Initialize (e\<lparr>Rename_err := x\<rparr>) = Initialize e"
  "WithDefaults (e\<lparr>Rename_err := x\<rparr>) = WithDefaults e"
  "run (e\<lparr>Rename_err := x\<rparr>) = run e"
  "vdisk_Build (e\<lparr>Rename_err := x\<rparr>) = vdisk_Build e"
  "buildArgs (e\<lparr>Rename_err := x\<rparr>) = buildArgs e"
  "warnGUI (e\<lparr>Rename_err := x\<rparr>) = warnGUI e"
  "os_MkdirAll (e\<lparr>Rename_err := x\<rparr>) = os_MkdirAll e"
  "os_Create (e\<lparr>Rename_err := x\<rparr>) = os_Create e"
  "ioutil_TempFile (e\<lparr>Rename_err := x\<rparr>) = ioutil_TempFile e"
  "ensureBridge (e\<lparr>Rename_err := x\<rparr>) = ensureBridge e"
  "scratchDir (e\<lparr>Rename_err := x\<rparr>) = scratchDir e"
  "openStack (e\<lparr>Rename_err := x\<rparr>) = openStack e"
  "buildImage (e\<lparr>Rename_err := x\<rparr>) = buildImage e"
  by (simp_all add: fun_eq_iff File_Close_def Reader_Close_def Initialize_def WithDefaults_def
      run_def vdisk_Build_def buildArgs_def warnGUI_def os_MkdirAll_def os_Create_def
      ioutil_TempFile_def ensureBridge_def scratchDir_def openStack_def buildImage_def Let_def
      withDefer_def split: option.splits sum.splits)

lemma networksLoop_Rename_err:
  "networksLoop (e\<lparr>Rename_err := x\<rparr>) idx d s = networksLoop e idx d s"
  by (induction idx arbitrary: d s)
     (simp_all add: prims_Rename_err split: prod.splits option.splits sum.splits)

lemma afterCreate_Rename_err:
  "afterCreate (e\<lparr>Rename_err := x\<rparr>) b f n s = afterCreate e b f n s"
  by (cases b)
     (simp_all add: launch_def launchFirecracker_def buildFirecracker_def prims_Rename_err
        networksLoop_Rename_err cong: prod.case_cong option.case_cong sum.case_cong)

lemma createDisk_Rename_err:
  "createDisk (e\<lparr>Rename_err := x\<rparr>) b s = createDisk e b s"
  by (cases b) (simp_all add: prims_Rename_err)

lemma fst_scoped:
  "fst (scoped e b n out s) =
     (case os_MkdirAll e (scratchDir e b) s of
        (Some err, s1) \<Rightarrow> Some err
      | (None, s1) \<Rightarrow>
          (case createDisk e b s1 of
             (Inl err, s2) \<Rightarrow> Some err
           | (Inr f, s2) \<Rightarrow> fst (afterCreate e b f n s2)))"
  by (simp add: scoped_def fst_withDefer split: prod.splits option.splits sum.splits)

lemma fst_orchestrate:
  "fst (orchestrate b e name out s) =
     (case rejection e b of
        Some err \<Rightarrow> Some err
      | None \<Rightarrow>
          (case (if b = Firecracker then ensureBridge e s else (None, s)) of
             (Some err, s0) \<Rightarrow> Some err
           | (None, s0) \<Rightarrow> fst (scoped e b name out s0)))"
  by (simp add: orchestrate_shape fst_withDefer split: option.splits prod.splits)

lemma orchestrate_Rename_err:
  "fst (orchestrate b (e\<lparr>Rename_err := x\<rparr>) name out s) = fst (orchestrate b e name out s)"
proof -
  have r: "rejection (e\<lparr>Rename_err := x\<rparr>) b = rejection e b"
    by (cases b) simp_all
  have sc: "fst (scoped (e\<lparr>Rename_err := x\<rparr>) b name out t) = fst (scoped e b name out t)" for t
    by (simp add: fst_scoped prims_Rename_err createDisk_Rename_err afterCreate_Rename_err
        cong: prod.case_cong option.case_cong sum.case_cong)
  show ?thesis
    by (simp only: fst_orchestrate r prims_Rename_err sc
        cong: prod.case_cong option.case_cong)
qed


text \<open>
  Claim C5. In every orchestration call with a non-empty output path in which the disk
  build succeeded, whatever the call returns: \<^verbatim>\<open>os.Rename\<close> of the disk file to the output
  path is called, after the build and inside the deferred closure (only log entries and
  the removals follow it), and a failed rename is logged. The error the call returns does
  not depend on what the rename answers.
\<close>

theorem relocation_attempted_and_not_fatal:
  assumes "orchestrate b e name out s = (r, s')"
    and "out \<noteq> []"
    and "\<exists>ev \<in> set (newEvents s s'). buildOk ev"
  shows "(\<exists>pre res post.
            newEvents s s' = pre @ EvRename (diskPath e b) out res # post
            \<and> (\<exists>ev \<in> set pre. buildOk ev)
            \<and> (\<forall>ev \<in> set post. afterRelocation ev)
            \<and> (res \<noteq> None \<longrightarrow> EvLog (''Failed to Copy Disk to '' @ out) \<in> set post))
       \<and> (\<forall>x. fst (orchestrate b (e\<lparr>Rename_err := x\<rparr>) name out s) = r)"
proof
  from assms(1) have "fst (orchestrate b e name out s) = r" by simp
  then show "\<forall>x. fst (orchestrate b (e\<lparr>Rename_err := x\<rparr>) name out s) = r"
    by (simp add: orchestrate_Rename_err)
next
  from assms(1) show "\<exists>pre res post.
            newEvents s s' = pre @ EvRename (diskPath e b) out res # post
            \<and> (\<exists>ev \<in> set pre. buildOk ev)
            \<and> (\<forall>ev \<in> set post. afterRelocation ev)
            \<and> (res \<noteq> None \<longrightarrow> EvLog (''Failed to Copy Disk to '' @ out) \<in> set post)"
  proof (cases rule: orchestrate_events)
    case early
    with assms(3) show ?thesis by (auto dest: early_not(4))
  next
    case (body evs sb rr r1 r2)
    let ?f = "diskPath e b" and ?p = "scratchDir e b"
    let ?pre = "bridgeEvents e b @ [EvMkdirAll ?p None, EvCreate ?f None] @ evs
                  @ [EvClose ?f (if ?f \<in> handles sb then Close_err e else Some ErrClosed),
                     EvLog (''Copying Disk to '' @ out)]"
    let ?post = "EvLog (if rr = None then ''Copied Disk'' else ''Failed to Copy Disk to '' @ out)
                   # [EvRemove ?f r1, EvRemove ?p r2]
                   @ (if removesAll b then [EvRemoveAll ?p] else [])"
    have dec: "newEvents s s' = ?pre @ EvRename ?f out rr # ?post"
      using body(6) assms(2) by simp
    have post: "\<forall>ev \<in> set ?post. afterRelocation ev" by simp
    from assms(3) obtain ev where ev: "ev \<in> set (newEvents s s')" "buildOk ev" by blast
    have "ev \<in> set ?pre"
    proof (rule ccontr)
      assume "ev \<notin> set ?pre"
      with ev(1) dec have "ev = EvRename ?f out rr \<or> ev \<in> set ?post" by auto
      with ev(2) show False by (auto split: if_splits)
    qed
    with ev(2) have pre: "\<exists>ev \<in> set ?pre. buildOk ev" by blast
    have lg: "rr \<noteq> None \<longrightarrow> EvLog (''Failed to Copy Disk to '' @ out) \<in> set ?post"
      by simp
    from dec pre post lg show ?thesis by blast
  qed
qed


theorem relocation_attempted_and_not_fatal_witness:
  "(\<exists>pre res post.
      newEvents state0
        (snd (orchestrate QEMU (env0\<lparr>Rename_err := Some (Error ''denied'')\<rparr>) ''vm''
                ''/out/d.raw'' state0))
        = pre @ EvRename (diskPath (env0\<lparr>Rename_err := Some (Error ''denied'')\<rparr>) QEMU)
                   ''/out/d.raw'' res # post
      \<and> (\<exists>ev \<in> set pre. buildOk ev))
   \<and> fst (orchestrate QEMU (env0\<lparr>Rename_err := Some (Error ''denied'')\<rparr>) ''vm''
            ''/out/d.raw'' state0) = None
   \<and> fst (orchestrate QEMU (env0\<lparr>Rename_err := None\<rparr>) ''vm'' ''/out/d.raw'' state0) = None"
proof -
  let ?e = "env0\<lparr>Rename_err := Some (Error ''denied'')\<rparr>"
  have o: "''/out/d.raw'' \<noteq> []" by simp
  have "fst (orchestrate QEMU ?e ''vm'' ''/out/d.raw'' state0) = None"
    by (simp add: fst_defs prim_defs env0_simps state0_simps Let_def)
  then have ok: "orchestrate QEMU ?e ''vm'' ''/out/d.raw'' state0
                   = (None, snd (orchestrate QEMU ?e ''vm'' ''/out/d.raw'' state0))"
    by (metis prod.collapse)
  from relocation_attempted_and_not_fatal [OF ok o success_has_build [OF ok]]
  have "(\<exists>pre res post.
      newEvents state0 (snd (orchestrate QEMU ?e ''vm'' ''/out/d.raw'' state0))
        = pre @ EvRename (diskPath ?e QEMU) ''/out/d.raw'' res # post
      \<and> (\<exists>ev \<in> set pre. buildOk ev))
    \<and> (\<forall>x. fst (orchestrate QEMU (?e\<lparr>Rename_err := x\<rparr>) ''vm'' ''/out/d.raw'' state0) = None)"
    by blast
  then show ?thesis
    using ok by (auto simp del: orchestrate.simps dest: spec [of _ None])
qed

end
